theory Spec2Isabelle
  imports Main
begin

section \<open>The Daemon singleton (daemon.hpp, daemon.cpp)\<close>

subsection \<open>Data model\<close>

text \<open>
  \<^verbatim>\<open>enum class State : uint8_t { Start, Running, Reload, Stop, User1, User2 };\<close>
\<close>

datatype State = Start | Running | Reload | Stop | User1 | User2

text \<open>
  The five handler members of the class, named after what they are registered for.
  The name is only used to log which member was called.
\<close>

datatype hook = BeforeToStart | OnReload | OnUser1 | OnUser2 | BeforeToExit

text \<open>
  A handler is a \<^verbatim>\<open>std::function<std::optional<bool>()>\<close>: a closure over state of the
  hosting program (type \<open>'w\<close>) that returns \<^verbatim>\<open>true\<close>, \<^verbatim>\<open>false\<close> or \<^verbatim>\<open>std::nullopt\<close>.
  An empty \<^verbatim>\<open>std::function\<close> is \<open>None\<close>. Handlers act on the host's state only: a handler
  that calls back into the singleton is outside this model.
\<close>

type_synonym 'w handler = "'w \<Rightarrow> bool option \<times> 'w"

text \<open>The member variables of \<^verbatim>\<open>class Daemon\<close>, in the order of declaration.\<close>

record 'w Daemon =
  m_State :: State
  m_Pid :: int
  m_IsInitialized :: bool
  m_PidFileName :: string
  m_HandlerBeforeToStart :: "'w handler option"
  m_HandlerReload :: "'w handler option"
  m_HandlerUser1 :: "'w handler option"
  m_HandlerUser2 :: "'w handler option"
  m_HandlerBeforeToExit :: "'w handler option"

text \<open>
  What the code touches outside the object: the host's state that the handlers close
  over, the two standard streams, the files, the process id that \<^verbatim>\<open>getpid()\<close> returns, and
  the number of calls of \<^verbatim>\<open>daemon(0, 1)\<close> made so far. \<open>calls\<close> is a log of the handler
  invocations: which member was called, and the value of \<^verbatim>\<open>m_State\<close> at the moment of the
  call.
\<close>

record 'w process =
  host :: 'w
  calls :: "(hook \<times> State) list"
  cout :: string
  cerr :: string
  files :: "string \<rightharpoonup> string"
  pid :: int
  daemon_calls :: nat

text \<open>The member initialisers of the class: the state of the singleton when it is created.\<close>

definition Daemon_instance :: "'w Daemon" where
  "Daemon_instance = \<lparr> m_State = Start, m_Pid = - 1, m_IsInitialized = False, m_PidFileName = [],
      m_HandlerBeforeToStart = None, m_HandlerReload = None, m_HandlerUser1 = None,
      m_HandlerUser2 = None, m_HandlerBeforeToExit = None \<rparr>"

text \<open>
  Calling a non-empty handler: \<^verbatim>\<open>m_Handler...()\<close>. The closure runs once on the host's
  state; the call is logged with the lifecycle state that is current while it runs.
\<close>

definition invoke :: "hook \<Rightarrow> 'w handler \<Rightarrow> 'w Daemon \<Rightarrow> 'w process \<Rightarrow> bool option \<times> 'w process" where
  "invoke hk f d e =
     (let (r, w) = f (host e)
      in (r, e\<lparr>host := w, calls := calls e @ [(hk, m_State d)]\<rparr>))"

subsection \<open>startAll, reloadAll, closeAll\<close>

text \<open>
  \<^verbatim>\<open>
  std::optional<bool> startAll() {
    m_State = State::Running;
    if (m_HandlerBeforeToStart) { return m_HandlerBeforeToStart(); }
    return std::nullopt;
  }
  \<close>
\<close>

definition startAll :: "'w Daemon \<Rightarrow> 'w process \<Rightarrow> bool option \<times> 'w Daemon \<times> 'w process" where
  "startAll d e =
     (let d1 = d\<lparr>m_State := Running\<rparr>
      in case m_HandlerBeforeToStart d1 of
           Some f \<Rightarrow> (let (r, e1) = invoke BeforeToStart f d1 e in (r, d1, e1))
         | None \<Rightarrow> (None, d1, e))"

text \<open>
  \<^verbatim>\<open>
  std::optional<bool> reloadAll() {
    m_State = State::Reload;
    return std::nullopt;
  }
  \<close>
\<close>

definition reloadAll :: "'w Daemon \<Rightarrow> 'w process \<Rightarrow> bool option \<times> 'w Daemon \<times> 'w process" where
  "reloadAll d e = (None, d\<lparr>m_State := Reload\<rparr>, e)"

text \<open>
  \<^verbatim>\<open>
  std::optional<bool> closeAll() {
    m_State = State::Stop;
    if (m_HandlerBeforeToExit) { return m_HandlerBeforeToExit(); }
    return std::nullopt;
  }
  \<close>
\<close>

definition closeAll :: "'w Daemon \<Rightarrow> 'w process \<Rightarrow> bool option \<times> 'w Daemon \<times> 'w process" where
  "closeAll d e =
     (let d1 = d\<lparr>m_State := Stop\<rparr>
      in case m_HandlerBeforeToExit d1 of
           Some f \<Rightarrow> (let (r, e1) = invoke BeforeToExit f d1 e in (r, d1, e1))
         | None \<Rightarrow> (None, d1, e))"

subsection \<open>Registration and raw accessors\<close>

definition setStartFunction :: "'w handler option \<Rightarrow> 'w Daemon \<Rightarrow> 'w Daemon" where
  "setStartFunction func d = d\<lparr>m_HandlerBeforeToStart := func\<rparr>"

definition setReloadFunction :: "'w handler option \<Rightarrow> 'w Daemon \<Rightarrow> 'w Daemon" where
  "setReloadFunction func d = d\<lparr>m_HandlerReload := func\<rparr>"

definition setUser1Function :: "'w handler option \<Rightarrow> 'w Daemon \<Rightarrow> 'w Daemon" where
  "setUser1Function func d = d\<lparr>m_HandlerUser1 := func\<rparr>"

definition setUser2Function :: "'w handler option \<Rightarrow> 'w Daemon \<Rightarrow> 'w Daemon" where
  "setUser2Function func d = d\<lparr>m_HandlerUser2 := func\<rparr>"

definition setCloseFunction :: "'w handler option \<Rightarrow> 'w Daemon \<Rightarrow> 'w Daemon" where
  "setCloseFunction func d = d\<lparr>m_HandlerBeforeToExit := func\<rparr>"

definition getState :: "'w Daemon \<Rightarrow> State" where
  "getState d = m_State d"

definition setState :: "State \<Rightarrow> 'w Daemon \<Rightarrow> 'w Daemon" where
  "setState state d = d\<lparr>m_State := state\<rparr>"

subsection \<open>isRunning and the three private reconcilers\<close>

text \<open>
  \<^verbatim>\<open>
  void performReloadIfRequired() {
    m_State = State::Running;
    if (m_HandlerReload) {
      if (m_HandlerReload() == false) { m_State = State::Stop; }
    }
  }
  \<close>
  Comparing a \<^verbatim>\<open>std::optional<bool>\<close> with \<^verbatim>\<open>false\<close> is true only for an engaged optional
  that holds \<^verbatim>\<open>false\<close>. The two user variants differ in the member they call.
\<close>

definition performReloadIfRequired :: "'w Daemon \<Rightarrow> 'w process \<Rightarrow> 'w Daemon \<times> 'w process" where
  "performReloadIfRequired d e =
     (let d1 = d\<lparr>m_State := Running\<rparr>
      in case m_HandlerReload d1 of
           Some f \<Rightarrow>
             (let (r, e1) = invoke OnReload f d1 e
              in if r = Some False then (d1\<lparr>m_State := Stop\<rparr>, e1) else (d1, e1))
         | None \<Rightarrow> (d1, e))"

definition performUser1IfRequired :: "'w Daemon \<Rightarrow> 'w process \<Rightarrow> 'w Daemon \<times> 'w process" where
  "performUser1IfRequired d e =
     (let d1 = d\<lparr>m_State := Running\<rparr>
      in case m_HandlerUser1 d1 of
           Some f \<Rightarrow>
             (let (r, e1) = invoke OnUser1 f d1 e
              in if r = Some False then (d1\<lparr>m_State := Stop\<rparr>, e1) else (d1, e1))
         | None \<Rightarrow> (d1, e))"

definition performUser2IfRequired :: "'w Daemon \<Rightarrow> 'w process \<Rightarrow> 'w Daemon \<times> 'w process" where
  "performUser2IfRequired d e =
     (let d1 = d\<lparr>m_State := Running\<rparr>
      in case m_HandlerUser2 d1 of
           Some f \<Rightarrow>
             (let (r, e1) = invoke OnUser2 f d1 e
              in if r = Some False then (d1\<lparr>m_State := Stop\<rparr>, e1) else (d1, e1))
         | None \<Rightarrow> (d1, e))"

text \<open>
  \<^verbatim>\<open>
  bool isRunning() {
    if (m_State == State::Reload) { performReloadIfRequired(); }
    else if (m_State == State::User1) { performUser1IfRequired(); }
    else if (m_State == State::User2) { performUser2IfRequired(); }
    return m_State == State::Running;
  }
  \<close>
\<close>

definition isRunning :: "'w Daemon \<Rightarrow> 'w process \<Rightarrow> bool \<times> 'w Daemon \<times> 'w process" where
  "isRunning d e =
     (let (d1, e1) =
            (if m_State d = Reload then performReloadIfRequired d e
             else if m_State d = User1 then performUser1IfRequired d e
             else if m_State d = User2 then performUser2IfRequired d e
             else (d, e))
      in (m_State d1 = Running, d1, e1))"

subsection \<open>Decimal output\<close>

text \<open>
  \<^verbatim>\<open>std::to_string(int)\<close> and \<^verbatim>\<open>operator<<(int)\<close> print a number in decimal: the digits from
  the most significant one, no leading zero, a minus sign before a negative number.
\<close>

definition digit_char :: "nat \<Rightarrow> char" where
  "digit_char n = ''0123456789'' ! (n mod 10)"

fun digits :: "nat \<Rightarrow> string" where
  "digits n = (if n < 10 then [digit_char n] else digits (n div 10) @ [digit_char n])"

declare digits.simps [simp del]

definition to_string :: "int \<Rightarrow> string" where
  "to_string i = (if i < 0 then CHR ''-'' # digits (nat (- i)) else digits (nat i))"

text \<open>\<^verbatim>\<open>std::endl\<close> writes a newline (and flushes).\<close>

definition endl :: string where
  "endl = [CHR 0x0A]"

text \<open>
  Reading a decimal string back, to say what "the decimal string of a number" means:
  the value of a digit, and the value of a string of digits.
\<close>

definition digit_val :: "char \<Rightarrow> nat option" where
  "digit_val c = (if c \<in> set ''0123456789'' then Some (of_char c - 48) else None)"

fun dec_value :: "nat \<Rightarrow> string \<Rightarrow> nat option" where
  "dec_value acc [] = Some acc"
| "dec_value acc (c # cs) =
     (case digit_val c of None \<Rightarrow> None | Some v \<Rightarrow> dec_value (10 * acc + v) cs)"

subsection \<open>The signal handler\<close>

text \<open>
  The signal numbers are macros of \<^verbatim>\<open><csignal>\<close> and depend on the platform, so they are a
  parameter. \<open>linux_signals\<close> are the numbers of Linux on x86 and ARM.
  \<^verbatim>\<open>
  static constexpr int kExitSignal = SIGINT;
  static constexpr int kTerminateSignal = SIGTERM;
  static constexpr int kReloadSignal = SIGHUP;
  static constexpr int kUserSignal1 = SIGUSR1;
  static constexpr int kUserSignal2 = SIGUSR2;
  \<close>
\<close>

record csignal =
  SIGINT :: int
  SIGTERM :: int
  SIGHUP :: int
  SIGUSR1 :: int
  SIGUSR2 :: int

definition linux_signals :: csignal where
  "linux_signals = \<lparr> SIGINT = 2, SIGTERM = 15, SIGHUP = 1, SIGUSR1 = 10, SIGUSR2 = 12 \<rparr>"

definition kExitSignal :: "csignal \<Rightarrow> int" where
  "kExitSignal sg = SIGINT sg"

definition kTerminateSignal :: "csignal \<Rightarrow> int" where
  "kTerminateSignal sg = SIGTERM sg"

definition kReloadSignal :: "csignal \<Rightarrow> int" where
  "kReloadSignal sg = SIGHUP sg"

definition kUserSignal1 :: "csignal \<Rightarrow> int" where
  "kUserSignal1 sg = SIGUSR1 sg"

definition kUserSignal2 :: "csignal \<Rightarrow> int" where
  "kUserSignal2 sg = SIGUSR2 sg"

text \<open>
  The case labels of a \<^verbatim>\<open>switch\<close> are pairwise different, or the program does not compile.
\<close>

definition signals_distinct :: "csignal \<Rightarrow> bool" where
  "signals_distinct sg =
     distinct [kExitSignal sg, kTerminateSignal sg, kReloadSignal sg, kUserSignal1 sg, kUserSignal2 sg]"

text \<open>
  \<^verbatim>\<open>
  void app::Daemon::signalHandler(int signal) {
    std::cout << "Interrupt signal number [" << signal << "] received." << std::endl;
    switch (signal) {
      case kExitSignal:
      case kTerminateSignal: { Daemon::instance().m_State = State::Stop; break; }
      case kReloadSignal: { Daemon::instance().m_State = State::Reload; break; }
      case kUserSignal1: { Daemon::instance().m_State = State::User1; break; }
      case kUserSignal2: { Daemon::instance().m_State = State::User2; break; }
      default: { break; }
    }
  }
  \<close>
\<close>

definition signalHandler :: "csignal \<Rightarrow> int \<Rightarrow> 'w Daemon \<Rightarrow> 'w process \<Rightarrow> 'w Daemon \<times> 'w process" where
  "signalHandler sg signal d e =
     (let e1 = e\<lparr>cout := cout e @ ''Interrupt signal number ['' @ to_string signal
                      @ ''] received.'' @ endl\<rparr>
      in if signal = kExitSignal sg \<or> signal = kTerminateSignal sg then (d\<lparr>m_State := Stop\<rparr>, e1)
         else if signal = kReloadSignal sg then (d\<lparr>m_State := Reload\<rparr>, e1)
         else if signal = kUserSignal1 sg then (d\<lparr>m_State := User1\<rparr>, e1)
         else if signal = kUserSignal2 sg then (d\<lparr>m_State := User2\<rparr>, e1)
         else (d, e1))"

text \<open>The signals that arrive between two polls are handled one after the other.\<close>

fun deliver :: "csignal \<Rightarrow> int list \<Rightarrow> 'w Daemon \<Rightarrow> 'w process \<Rightarrow> 'w Daemon \<times> 'w process" where
  "deliver sg [] d e = (d, e)"
| "deliver sg (signal # rest) d e = (let (d1, e1) = signalHandler sg signal d e in deliver sg rest d1 e1)"

subsection \<open>makeDaemon and the PID file\<close>

text \<open>
  What the operating system answers is a parameter: whether \<^verbatim>\<open>daemon(0, 1)\<close> succeeds, and
  then the id of the detached child in which the code goes on (the parent exits);
  the text of \<^verbatim>\<open>strerror(errno)\<close> when it fails; which paths can be opened for writing;
  and for which of them the write to the opened file succeeds (it fails, for example,
  when the device is full or a file size limit is reached).
\<close>

record posix =
  daemon_child :: "int option"
  strerror_errno :: string
  can_open :: "string \<Rightarrow> bool"
  can_write :: "string \<Rightarrow> bool"

definition posix_daemon :: "posix \<Rightarrow> 'w process \<Rightarrow> int \<times> 'w process" where
  "posix_daemon os e =
     (let e1 = e\<lparr>daemon_calls := Suc (daemon_calls e)\<rparr>
      in case daemon_child os of
           None \<Rightarrow> (- 1, e1)
         | Some child \<Rightarrow> (0, e1\<lparr>pid := child\<rparr>))"

text \<open>
  \<^verbatim>\<open>std::fstream(name, std::ios::out)\<close> creates the file or truncates it. \<^verbatim>\<open><<\<close> followed by
  \<^verbatim>\<open>close()\<close> appends to what the file holds when the write succeeds; when it fails the
  stream goes into a failed state and the file stays as it is (a failed write is taken
  to store nothing). The result says whether the stream is still good.
\<close>

definition fstream_open_out :: "string \<Rightarrow> 'w process \<Rightarrow> 'w process" where
  "fstream_open_out name e = e\<lparr>files := (files e)(name \<mapsto> [])\<rparr>"

definition fstream_put :: "posix \<Rightarrow> string \<Rightarrow> string \<Rightarrow> 'w process \<Rightarrow> bool \<times> 'w process" where
  "fstream_put os name s e =
     (if can_write os name
      then (True, e\<lparr>files := (files e)(name \<mapsto> (case files e name of None \<Rightarrow> s | Some c \<Rightarrow> c @ s))\<rparr>)
      else (False, e))"

text \<open>
  \<^verbatim>\<open>
  bool app::Daemon::writePidToFile(const std::string& pidFileName) {
    if (!pidFileName.empty()) {
      std::fstream fileRbackStream(pidFileName, std::ios::out);
      if (!fileRbackStream.is_open()) {
        std::cerr << "Failed to open " << pidFileName << std::endl;
        return false;
      }
      fileRbackStream << std::to_string(getpid());
      fileRbackStream.close();
    }
    return true;
  }
  \<close>
  The state of the stream is read after neither \<^verbatim>\<open><<\<close> nor \<^verbatim>\<open>close()\<close>: the function returns
  \<^verbatim>\<open>true\<close> whether the write succeeded or not.
\<close>

definition writePidToFile :: "posix \<Rightarrow> string \<Rightarrow> 'w process \<Rightarrow> bool \<times> 'w process" where
  "writePidToFile os pidFileName e =
     (if pidFileName \<noteq> [] then
        (if \<not> can_open os pidFileName
         then (False, e\<lparr>cerr := cerr e @ ''Failed to open '' @ pidFileName @ endl\<rparr>)
         else (let (good, e1) = fstream_put os pidFileName (to_string (pid e))
                                  (fstream_open_out pidFileName e)
               in (True, e1)))
      else (True, e))"

text \<open>
  \<^verbatim>\<open>
  std::optional<bool> app::Daemon::makeDaemon(const std::string& pidFileName) {
    if (!m_IsInitialized) {
      m_IsInitialized = true;
      m_PidFileName = pidFileName;
      if (daemon(0, 1) != 0) {
        std::cerr << "Failed demonizing: " << strerror(errno) << std::endl;
      } else if (writePidToFile(pidFileName)) {
        m_Pid = getpid();
        return true;
      }
    }
    return false;
  }
  \<close>
\<close>

definition makeDaemon :: "posix \<Rightarrow> string \<Rightarrow> 'w Daemon \<Rightarrow> 'w process \<Rightarrow> bool option \<times> 'w Daemon \<times> 'w process" where
  "makeDaemon os pidFileName d e =
     (if \<not> m_IsInitialized d then
        (let d1 = d\<lparr>m_IsInitialized := True, m_PidFileName := pidFileName\<rparr>;
             (rc, e1) = posix_daemon os e
         in if rc \<noteq> 0
            then (Some False, d1,
                  e1\<lparr>cerr := cerr e1 @ ''Failed demonizing: '' @ strerror_errno os @ endl\<rparr>)
            else (let (ok, e2) = writePidToFile os pidFileName e1
                  in if ok then (Some True, d1\<lparr>m_Pid := pid e2\<rparr>, e2)
                     else (Some False, d1, e2)))
      else (Some False, d, e))"

text \<open>
  A host that calls \<^verbatim>\<open>makeDaemon\<close> again and again, with a path and an answer of the
  operating system for each call; the results are collected in order.
\<close>

fun makeDaemon_calls :: "(posix \<times> string) list \<Rightarrow> 'w Daemon \<Rightarrow> 'w process \<Rightarrow> bool option list \<times> 'w Daemon \<times> 'w process" where
  "makeDaemon_calls [] d e = ([], d, e)"
| "makeDaemon_calls ((os, name) # rest) d e =
     (let (r, d1, e1) = makeDaemon os name d e;
          (rs, d2, e2) = makeDaemon_calls rest d1 e1
      in (r # rs, d2, e2))"

section \<open>The periodic task (taskController.hpp)\<close>

subsection \<open>Stop token, stop callback and wake event\<close>

text \<open>
  The only callback that this code registers on a stop token is the lambda of
  \<^verbatim>\<open>registerStopCallback\<close>, which calls \<^verbatim>\<open>event.event_condition.notify_all()\<close>.
\<close>

datatype callback = NotifyAll

text \<open>What a worker logs: each call of the serve function, and each timed wait.\<close>

datatype event = Serve int | WaitFor int

text \<open>
  What the worker thread shares with the rest of the program: the state that the serve
  function closes over, the stop state behind the \<^verbatim>\<open>std::stop_token\<close> (the flag and the
  registered callbacks, each under the id of its \<^verbatim>\<open>std::stop_callback\<close> object), and the
  number of \<^verbatim>\<open>notify_all\<close> calls made on the condition variable of the \<^verbatim>\<open>TaskEvent\<close>.
\<close>

record 'w task_world =
  served :: 'w
  stop_flag :: bool
  stop_callbacks :: "(nat \<times> callback) list"
  notify_count :: nat
  trace :: "event list"

definition notify_all :: "'w task_world \<Rightarrow> 'w task_world" where
  "notify_all t = t\<lparr>notify_count := Suc (notify_count t)\<rparr>"

definition run_callback :: "callback \<Rightarrow> 'w task_world \<Rightarrow> 'w task_world" where
  "run_callback cb t = (case cb of NotifyAll \<Rightarrow> notify_all t)"

text \<open>\<^verbatim>\<open>token.stop_requested()\<close>\<close>

definition stop_requested :: "'w task_world \<Rightarrow> bool" where
  "stop_requested t = stop_flag t"

text \<open>
  The constructor of \<^verbatim>\<open>std::stop_callback\<close>: when stop has already been requested the
  callback runs at once, in the constructing thread, and nothing is registered;
  otherwise the callback is registered. The result says under which id, if any.
\<close>

definition fresh_id :: "(nat \<times> callback) list \<Rightarrow> nat" where
  "fresh_id cbs = fold (\<lambda>(i, _) m. max (Suc i) m) cbs 0"

definition stop_callback_ctor :: "callback \<Rightarrow> 'w task_world \<Rightarrow> nat option \<times> 'w task_world" where
  "stop_callback_ctor cb t =
     (if stop_requested t then (None, run_callback cb t)
      else (let i = fresh_id (stop_callbacks t)
            in (Some i, t\<lparr>stop_callbacks := stop_callbacks t @ [(i, cb)]\<rparr>)))"

text \<open>The destructor of \<^verbatim>\<open>std::stop_callback\<close> takes the callback off the stop state.\<close>

definition stop_callback_dtor :: "nat option \<Rightarrow> 'w task_world \<Rightarrow> 'w task_world" where
  "stop_callback_dtor h t =
     (case h of
        None \<Rightarrow> t
      | Some i \<Rightarrow> t\<lparr>stop_callbacks := filter (\<lambda>(j, _). j \<noteq> i) (stop_callbacks t)\<rparr>)"

text \<open>
  \<^verbatim>\<open>std::stop_source::request_stop()\<close>: the first request sets the flag and runs the
  callbacks that are registered at that moment; a later request does nothing and
  returns \<^verbatim>\<open>false\<close>.
\<close>

definition request_stop :: "'w task_world \<Rightarrow> bool \<times> 'w task_world" where
  "request_stop t =
     (if stop_flag t then (False, t)
      else (True, fold (\<lambda>(_, cb). run_callback cb) (stop_callbacks t)
                    (t\<lparr>stop_flag := True, stop_callbacks := []\<rparr>)))"

text \<open>
  \<^verbatim>\<open>
  static void registerStopCallback(std::stop_token token, TaskEvent& event) {
    std::stop_callback{token, [&]() { event.event_condition.notify_all(); }};
  }
  \<close>
  The \<^verbatim>\<open>std::stop_callback\<close> is a temporary object of an expression statement: it is
  constructed and, at the end of the statement, destroyed.
\<close>

definition registerStopCallback :: "'w task_world \<Rightarrow> 'w task_world" where
  "registerStopCallback t = (let (h, t1) = stop_callback_ctor NotifyAll t in stop_callback_dtor h t1)"

subsection \<open>The worker\<close>

text \<open>
  \<^verbatim>\<open>event.event_condition.wait_for(lck, sooner)\<close>: the worker blocks until the timeout has
  passed or the condition variable is notified. The wait is logged with its timeout.
\<close>

definition wait_for :: "int \<Rightarrow> 'w task_world \<Rightarrow> 'w task_world" where
  "wait_for timeout t = t\<lparr>trace := trace t @ [WaitFor timeout]\<rparr>"

text \<open>
  \<^verbatim>\<open>
  static void runTask(DurationUnit defDuration, DurationUnit zeroDuration,
                      FunctionType<DurationUnit> serveFunction, std::stop_token token, TaskEvent& event) {
    auto sooner{defDuration};
    registerStopCallback(token, event);
    while (true) {
      sooner = serveFunction(sooner);
      if (sooner.count() > 0) {
        std::unique_lock lck(event.event_mutex);
        event.event_condition.wait_for(lck, sooner);
      } else {
        sooner = zeroDuration;
      }
      if (token.stop_requested()) { break; }
    }
  }
  \<close>
  A duration is its tick count. The serve function is a closure over state of the host.
  The other threads are the parameter \<open>others\<close>: \<open>others k\<close> says that one of them calls
  \<^verbatim>\<open>request_stop()\<close> while the worker is in its \<open>k\<close>-th round (counted from 0), before the
  worker reads the token in that round. The loop need not end, so it runs on fuel: one
  unit for each round, and \<open>None\<close> when the fuel is used up before the loop is left.
\<close>

fun runTask_loop :: "nat \<Rightarrow> int \<Rightarrow> (int \<Rightarrow> 'w \<Rightarrow> int \<times> 'w) \<Rightarrow> (nat \<Rightarrow> bool) \<Rightarrow> nat \<Rightarrow> int \<Rightarrow> 'w task_world
    \<Rightarrow> (int \<times> 'w task_world) option" where
  "runTask_loop 0 zeroDuration serveFunction others k sooner t = None"
| "runTask_loop (Suc fuel) zeroDuration serveFunction others k sooner t =
     (let (s1, w1) = serveFunction sooner (served t);
          t1 = t\<lparr>served := w1, trace := trace t @ [Serve sooner]\<rparr>;
          (s2, t2) = (if s1 > 0 then (s1, wait_for s1 t1) else (zeroDuration, t1));
          t3 = (if others k then snd (request_stop t2) else t2)
      in if stop_requested t3 then Some (s2, t3)
         else runTask_loop fuel zeroDuration serveFunction others (Suc k) s2 t3)"

definition runTask :: "nat \<Rightarrow> int \<Rightarrow> int \<Rightarrow> (int \<Rightarrow> 'w \<Rightarrow> int \<times> 'w) \<Rightarrow> (nat \<Rightarrow> bool) \<Rightarrow> 'w task_world
    \<Rightarrow> (int \<times> 'w task_world) option" where
  "runTask fuel defDuration zeroDuration serveFunction others t =
     runTask_loop fuel zeroDuration serveFunction others 0 defDuration (registerStopCallback t)"

subsection \<open>The loop as the specification words it\<close>

text \<open>
  "\<open>remaining := initialDuration\<close>; repeat { \<open>remaining := stepFn(remaining)\<close>; if
  \<open>remaining > 0\<close> then wait on \<open>wakeEvent\<close> for up to \<open>remaining\<close>, else set
  \<open>remaining := minDuration\<close>; if cancellation requested, break }."
  One round of the body acts on the remaining duration, the host's state and the log;
  \<open>spec_rounds n\<close> is the outcome of \<open>n\<close> rounds from the start. Cancellation is seen in
  round \<open>k\<close> when it was requested before the worker started or is requested during one
  of the rounds up to \<open>k\<close>.
\<close>

definition spec_round :: "int \<Rightarrow> (int \<Rightarrow> 'w \<Rightarrow> int \<times> 'w) \<Rightarrow> int \<times> 'w \<times> event list \<Rightarrow> int \<times> 'w \<times> event list" where
  "spec_round minDuration stepFn = (\<lambda>(remaining, w, evs).
     (let (remaining', w') = stepFn remaining w
      in if remaining' > 0 then (remaining', w', evs @ [Serve remaining, WaitFor remaining'])
         else (minDuration, w', evs @ [Serve remaining])))"

definition spec_rounds :: "nat \<Rightarrow> int \<Rightarrow> int \<Rightarrow> (int \<Rightarrow> 'w \<Rightarrow> int \<times> 'w) \<Rightarrow> 'w \<Rightarrow> event list \<Rightarrow> int \<times> 'w \<times> event list" where
  "spec_rounds n initialDuration minDuration stepFn w evs =
     (spec_round minDuration stepFn ^^ n) (initialDuration, w, evs)"

definition cancellation_seen :: "bool \<Rightarrow> (nat \<Rightarrow> bool) \<Rightarrow> nat \<Rightarrow> bool" where
  "cancellation_seen before others k = (before \<or> (\<exists>j \<le> k. others j))"

section \<open>Vocabulary of the properties\<close>

text \<open>
  The transient states and, for each, the member that \<^verbatim>\<open>isRunning\<close> calls and its name in
  the log.
\<close>

definition transient :: "State \<Rightarrow> bool" where
  "transient s = (s = Reload \<or> s = User1 \<or> s = User2)"

definition associated_hook :: "State \<Rightarrow> hook" where
  "associated_hook s = (if s = Reload then OnReload else if s = User1 then OnUser1 else OnUser2)"

definition associated_handler :: "'w Daemon \<Rightarrow> 'w handler option" where
  "associated_handler d =
     (if m_State d = Reload then m_HandlerReload d
      else if m_State d = User1 then m_HandlerUser1 d
      else m_HandlerUser2 d)"

text \<open>
  The signals for which the constructor installs the handler; no other signal reaches it.
  \<^verbatim>\<open>
  app::Daemon::Daemon() {
    signal(kExitSignal, Daemon::signalHandler);
    signal(kTerminateSignal, Daemon::signalHandler);
    signal(kReloadSignal, Daemon::signalHandler);
    signal(kUserSignal1, Daemon::signalHandler);
    signal(kUserSignal2, Daemon::signalHandler);
  }
  \<close>
\<close>

definition installed_signals :: "csignal \<Rightarrow> int list" where
  "installed_signals sg =
     [kExitSignal sg, kTerminateSignal sg, kReloadSignal sg, kUserSignal1 sg, kUserSignal2 sg]"

text \<open>
  What a host can do with the singleton, one operation after the other. The results of
  the operations are dropped: only the object and the process are followed.
\<close>

datatype 'w operation =
    StartAll
  | ReloadAll
  | CloseAll
  | IsRunning
  | GetState
  | SetState State
  | SetStartFunction "'w handler option"
  | SetReloadFunction "'w handler option"
  | SetUser1Function "'w handler option"
  | SetUser2Function "'w handler option"
  | SetCloseFunction "'w handler option"
  | MakeDaemon posix string
  | Signal csignal int

fun run_operation :: "'w operation \<Rightarrow> 'w Daemon \<Rightarrow> 'w process \<Rightarrow> 'w Daemon \<times> 'w process" where
  "run_operation StartAll d e = snd (startAll d e)"
| "run_operation ReloadAll d e = snd (reloadAll d e)"
| "run_operation CloseAll d e = snd (closeAll d e)"
| "run_operation IsRunning d e = snd (isRunning d e)"
| "run_operation GetState d e = (d, e)"
| "run_operation (SetState s) d e = (setState s d, e)"
| "run_operation (SetStartFunction f) d e = (setStartFunction f d, e)"
| "run_operation (SetReloadFunction f) d e = (setReloadFunction f d, e)"
| "run_operation (SetUser1Function f) d e = (setUser1Function f d, e)"
| "run_operation (SetUser2Function f) d e = (setUser2Function f d, e)"
| "run_operation (SetCloseFunction f) d e = (setCloseFunction f d, e)"
| "run_operation (MakeDaemon os name) d e = snd (makeDaemon os name d e)"
| "run_operation (Signal sg signal) d e = signalHandler sg signal d e"

fun run_operations :: "'w operation list \<Rightarrow> 'w Daemon \<Rightarrow> 'w process \<Rightarrow> 'w Daemon \<times> 'w process" where
  "run_operations [] d e = (d, e)"
| "run_operations (x # xs) d e = (let (d1, e1) = run_operation x d e in run_operations xs d1 e1)"

text \<open>The calls of one member in the log.\<close>

definition calls_of :: "hook \<Rightarrow> 'w process \<Rightarrow> (hook \<times> State) list" where
  "calls_of hk e = filter (\<lambda>(h, _). h = hk) (calls e)"

text \<open>
  Concrete inputs: a process that has just started, with a counter as the host's state;
  a handler that counts its calls and returns a given outcome; a worker's world in
  which nothing has happened yet; a serve function that counts its calls and asks for
  the duration it was given.
\<close>

definition process0 :: "nat process" where
  "process0 = \<lparr> host = 0, calls = [], cout = [], cerr = [], files = Map.empty, pid = 4711,
      daemon_calls = 0 \<rparr>"

definition counting :: "bool option \<Rightarrow> nat handler" where
  "counting r = (\<lambda>n. (r, Suc n))"

text \<open>
  An operating system under which the detach gives process 4711 and every path can be
  opened, but no write to an opened file succeeds.
\<close>

definition posix_write_fails :: posix where
  "posix_write_fails = \<lparr> daemon_child = Some 4711, strerror_errno = [], can_open = (\<lambda>_. True),
      can_write = (\<lambda>_. False) \<rparr>"

definition task_world0 :: "nat task_world" where
  "task_world0 = \<lparr> served = 0, stop_flag = False, stop_callbacks = [], notify_count = 0, trace = [] \<rparr>"

definition serve_same :: "int \<Rightarrow> nat \<Rightarrow> int \<times> nat" where
  "serve_same d n = (d, Suc n)"

text \<open>
  The serve function of the example program that uses the task controller: it asks for
  one second more each time, and for no wait once four seconds are reached. It logs a
  line at each call; the host's state counts them.
  \<^verbatim>\<open>
  [](std::chrono::milliseconds soon) {
    if (soon.count() >= 4000) { soon = 0ms; } else { soon += 1000ms; }
    spdlog::info("Process for {} ms", soon.count());
    return soon;
  }
  \<close>
\<close>

definition serveFunction_main :: "int \<Rightarrow> nat \<Rightarrow> int \<times> nat" where
  "serveFunction_main soon n = ((if soon \<ge> 4000 then 0 else soon + 1000), Suc n)"

section \<open>Properties of the lifecycle state machine\<close>

subsection \<open>Calling a handler\<close>

lemma invoke_eq:
  "invoke hk f d e =
     (fst (f (host e)), e\<lparr>host := snd (f (host e)), calls := calls e @ [(hk, m_State d)]\<rparr>)"
  by (simp add: invoke_def split_def Let_def)

text \<open>\<^verbatim>\<open>startAll\<close> and \<^verbatim>\<open>closeAll\<close>, each in one equation.\<close>

lemma startAll_eq:
  "startAll d e =
     (case m_HandlerBeforeToStart d of
        None \<Rightarrow> (None, d\<lparr>m_State := Running\<rparr>, e)
      | Some f \<Rightarrow> (fst (f (host e)), d\<lparr>m_State := Running\<rparr>,
                   e\<lparr>host := snd (f (host e)), calls := calls e @ [(BeforeToStart, Running)]\<rparr>))"
  by (simp add: startAll_def invoke_eq Let_def split: option.splits)

lemma closeAll_eq:
  "closeAll d e =
     (case m_HandlerBeforeToExit d of
        None \<Rightarrow> (None, d\<lparr>m_State := Stop\<rparr>, e)
      | Some f \<Rightarrow> (fst (f (host e)), d\<lparr>m_State := Stop\<rparr>,
                   e\<lparr>host := snd (f (host e)), calls := calls e @ [(BeforeToExit, Stop)]\<rparr>))"
  by (simp add: closeAll_def invoke_eq Let_def split: option.splits)

text \<open>
  \<^verbatim>\<open>isRunning\<close> in one equation: on a transient state the object goes to \<open>Running\<close>, the
  member of that state is called if it is set, and an explicit \<^verbatim>\<open>false\<close> sends the object
  to \<open>Stop\<close>; on any other state nothing changes.
\<close>

lemma isRunning_eq:
  "isRunning d e =
     (if transient (m_State d) then
        (case associated_handler d of
           None \<Rightarrow> (True, d\<lparr>m_State := Running\<rparr>, e)
         | Some f \<Rightarrow>
             (fst (f (host e)) \<noteq> Some False,
              d\<lparr>m_State := (if fst (f (host e)) = Some False then Stop else Running)\<rparr>,
              e\<lparr>host := snd (f (host e)),
                calls := calls e @ [(associated_hook (m_State d), Running)]\<rparr>))
      else (m_State d = Running, d, e))"
  by (auto simp: transient_def isRunning_def performReloadIfRequired_def performUser1IfRequired_def
      performUser2IfRequired_def associated_handler_def associated_hook_def invoke_eq Let_def
      split: option.splits)

lemma isRunning_not_transient: "\<not> transient (m_State (fst (snd (isRunning d e))))"
  by (auto simp: isRunning_eq transient_def split: option.splits)

lemma isRunning_result: "fst (isRunning d e) \<longleftrightarrow> m_State (fst (snd (isRunning d e))) = Running"
  by (simp add: isRunning_def split_def Let_def)

subsection \<open>Polling a transient state\<close>

text \<open>
  C1. When \<^verbatim>\<open>isRunning()\<close> is called in a transient state (\<open>Reload\<close>, \<open>User1\<close> or \<open>User2\<close>),
  the state is first set to \<open>Running\<close>; then the one member that belongs to the state is
  called, once, if it is set (the log gains one entry, for that member, taken while the
  state is \<open>Running\<close>, and the host's state is the result of one run of the closure). An
  explicit \<^verbatim>\<open>false\<close> makes the state \<open>Stop\<close>; without a handler, or with \<^verbatim>\<open>true\<close> or no value,
  the state stays \<open>Running\<close>. The call returns true exactly when the state is \<open>Running\<close>
  afterwards.
\<close>

theorem isRunning_transient:
  assumes "transient (m_State d)"
  shows "isRunning d e =
     (case associated_handler d of
        None \<Rightarrow> (True, d\<lparr>m_State := Running\<rparr>, e)
      | Some f \<Rightarrow>
          (let (r, w) = f (host e)
           in (r \<noteq> Some False,
               d\<lparr>m_State := (if r = Some False then Stop else Running)\<rparr>,
               e\<lparr>host := w, calls := calls e @ [(associated_hook (m_State d), Running)]\<rparr>)))
   \<and> (fst (isRunning d e) \<longleftrightarrow> m_State (fst (snd (isRunning d e))) = Running)"
  using assms by (simp add: isRunning_eq isRunning_result split_def Let_def split: option.splits)

text \<open>
  The theorem at a concrete input: state \<open>User1\<close>, a handler for it that returns \<^verbatim>\<open>false\<close>.
  The handler runs once, sees \<open>Running\<close>, and the object ends in \<open>Stop\<close>.
\<close>

theorem isRunning_transient_witness:
  "transient (m_State (Daemon_instance\<lparr>m_State := User1, m_HandlerUser1 := Some (counting (Some False))\<rparr>))
   \<and> isRunning (Daemon_instance\<lparr>m_State := User1, m_HandlerUser1 := Some (counting (Some False))\<rparr>) process0
     = (False, Daemon_instance\<lparr>m_State := Stop, m_HandlerUser1 := Some (counting (Some False))\<rparr>,
        process0\<lparr>host := 1, calls := [(OnUser1, Running)]\<rparr>)"
  using isRunning_transient [of "Daemon_instance\<lparr>m_State := User1, m_HandlerUser1 := Some (counting (Some False))\<rparr>" process0]
  by (simp add: transient_def associated_handler_def associated_hook_def Daemon_instance_def
      process0_def counting_def)

subsection \<open>startAll\<close>

text \<open>
  C5. \<^verbatim>\<open>startAll()\<close> sets the state to \<open>Running\<close> whatever the start handler returns; it
  returns no value when no start handler is set and the handler's outcome otherwise.
  Called twice, it leaves the same object as called once, in state \<open>Running\<close>, and the
  handler has run once in each call.
\<close>

theorem startAll_sets_Running:
  "startAll d e =
     (case m_HandlerBeforeToStart d of
        None \<Rightarrow> (None, d\<lparr>m_State := Running\<rparr>, e)
      | Some f \<Rightarrow> (fst (f (host e)), d\<lparr>m_State := Running\<rparr>,
                   e\<lparr>host := snd (f (host e)), calls := calls e @ [(BeforeToStart, Running)]\<rparr>))
   \<and> m_State (fst (snd (startAll d e))) = Running
   \<and> (let (r1, d1, e1) = startAll d e; (r2, d2, e2) = startAll d1 e1
      in d2 = d1 \<and> m_State d2 = Running
         \<and> calls e2 = calls e @ (case m_HandlerBeforeToStart d of None \<Rightarrow> []
              | Some f \<Rightarrow> [(BeforeToStart, Running), (BeforeToStart, Running)])
         \<and> host e2 = (case m_HandlerBeforeToStart d of None \<Rightarrow> host e
              | Some f \<Rightarrow> snd (f (snd (f (host e))))))"
proof (cases "m_HandlerBeforeToStart d")
  case None
  then have once: "startAll d e = (None, d\<lparr>m_State := Running\<rparr>, e)"
    by (simp add: startAll_eq)
  from None have twice: "startAll (d\<lparr>m_State := Running\<rparr>) e = (None, d\<lparr>m_State := Running\<rparr>, e)"
    by (simp add: startAll_eq)
  from None once twice show ?thesis by simp
next
  case (Some f)
  let ?e1 = "e\<lparr>host := snd (f (host e)), calls := calls e @ [(BeforeToStart, Running)]\<rparr>"
  from Some have once: "startAll d e = (fst (f (host e)), d\<lparr>m_State := Running\<rparr>, ?e1)"
    by (simp add: startAll_eq)
  from Some have twice: "startAll (d\<lparr>m_State := Running\<rparr>) ?e1 =
      (fst (f (host ?e1)), d\<lparr>m_State := Running\<rparr>,
       ?e1\<lparr>host := snd (f (host ?e1)), calls := calls ?e1 @ [(BeforeToStart, Running)]\<rparr>)"
    by (simp add: startAll_eq)
  from Some once twice show ?thesis by simp
qed

subsection \<open>The signal handler\<close>

lemma signalHandler_process:
  "snd (signalHandler sg signal d e) =
     e\<lparr>cout := cout e @ ''Interrupt signal number ['' @ to_string signal @ ''] received.'' @ endl\<rparr>"
  by (simp add: signalHandler_def Let_def)

lemma signalHandler_object:
  "fst (signalHandler sg signal d e) =
     (if signal = SIGINT sg \<or> signal = SIGTERM sg then d\<lparr>m_State := Stop\<rparr>
      else if signal = SIGHUP sg then d\<lparr>m_State := Reload\<rparr>
      else if signal = SIGUSR1 sg then d\<lparr>m_State := User1\<rparr>
      else if signal = SIGUSR2 sg then d\<lparr>m_State := User2\<rparr>
      else d)"
  by (simp add: signalHandler_def Let_def kExitSignal_def kTerminateSignal_def
      kReloadSignal_def kUserSignal1_def kUserSignal2_def)

lemma digits_small: "n < 10 \<Longrightarrow> digits n = [digit_char n]"
  by (simp add: digits.simps)

lemma to_string_1: "to_string 1 = ''1''"
  by (simp add: to_string_def digits_small digit_char_def)

text \<open>
  C6, as it is stated, fails: the handler does not only write the state. Its first
  statement prints a line to the standard output, for every signal number.
\<close>

theorem signalHandler_only_state_write_counterexample:
  "snd (signalHandler linux_signals 1 Daemon_instance process0) \<noteq> process0
   \<and> cout process0 = []
   \<and> cout (snd (signalHandler linux_signals 1 Daemon_instance process0))
        = ''Interrupt signal number [1] received.'' @ endl"
proof -
  have "cout (snd (signalHandler linux_signals 1 Daemon_instance process0))
        = ''Interrupt signal number [1] received.'' @ endl"
    by (simp add: signalHandler_process process0_def to_string_1)
  moreover have "cout process0 = []" by (simp add: process0_def)
  ultimately show ?thesis by (auto simp: endl_def)
qed

text \<open>
  C6, amended. The handler prints one line with the signal number to the standard
  output; apart from that it only writes the state: the interrupt and the terminate
  signal set \<open>Stop\<close>, the hang-up signal sets \<open>Reload\<close>, the two user signals set \<open>User1\<close>
  and \<open>User2\<close>, and any other number leaves the object as it is. No handler is called: the
  log of calls and the host's state are unchanged.
\<close>

theorem signalHandler_state_write_and_log:
  assumes "signals_distinct sg"
  shows "(signal = SIGINT sg \<or> signal = SIGTERM sg \<longrightarrow> fst (signalHandler sg signal d e) = d\<lparr>m_State := Stop\<rparr>)
   \<and> (signal = SIGHUP sg \<longrightarrow> fst (signalHandler sg signal d e) = d\<lparr>m_State := Reload\<rparr>)
   \<and> (signal = SIGUSR1 sg \<longrightarrow> fst (signalHandler sg signal d e) = d\<lparr>m_State := User1\<rparr>)
   \<and> (signal = SIGUSR2 sg \<longrightarrow> fst (signalHandler sg signal d e) = d\<lparr>m_State := User2\<rparr>)
   \<and> (signal \<notin> {SIGINT sg, SIGTERM sg, SIGHUP sg, SIGUSR1 sg, SIGUSR2 sg} \<longrightarrow> fst (signalHandler sg signal d e) = d)
   \<and> snd (signalHandler sg signal d e) =
        e\<lparr>cout := cout e @ ''Interrupt signal number ['' @ to_string signal @ ''] received.'' @ endl\<rparr>
   \<and> calls (snd (signalHandler sg signal d e)) = calls e
   \<and> host (snd (signalHandler sg signal d e)) = host e"
proof -
  from assms have dist: "distinct [SIGINT sg, SIGTERM sg, SIGHUP sg, SIGUSR1 sg, SIGUSR2 sg]"
    by (simp add: signals_distinct_def kExitSignal_def kTerminateSignal_def
      kReloadSignal_def kUserSignal1_def kUserSignal2_def)
  have 1: "signal = SIGINT sg \<or> signal = SIGTERM sg \<longrightarrow> fst (signalHandler sg signal d e) = d\<lparr>m_State := Stop\<rparr>"
    by (simp add: signalHandler_object)
  from dist have ne: "SIGINT sg \<noteq> SIGHUP sg" "SIGTERM sg \<noteq> SIGHUP sg"
      "SIGINT sg \<noteq> SIGUSR1 sg" "SIGTERM sg \<noteq> SIGUSR1 sg" "SIGHUP sg \<noteq> SIGUSR1 sg"
      "SIGINT sg \<noteq> SIGUSR2 sg" "SIGTERM sg \<noteq> SIGUSR2 sg" "SIGHUP sg \<noteq> SIGUSR2 sg"
      "SIGUSR1 sg \<noteq> SIGUSR2 sg"
    by simp_all
  note ne' = ne [symmetric]
  have 2: "signal = SIGHUP sg \<longrightarrow> fst (signalHandler sg signal d e) = d\<lparr>m_State := Reload\<rparr>"
    by (simp add: signalHandler_object ne')
  have 3: "signal = SIGUSR1 sg \<longrightarrow> fst (signalHandler sg signal d e) = d\<lparr>m_State := User1\<rparr>"
    by (simp add: signalHandler_object ne')
  have 4: "signal = SIGUSR2 sg \<longrightarrow> fst (signalHandler sg signal d e) = d\<lparr>m_State := User2\<rparr>"
    by (simp add: signalHandler_object ne')
  have 5: "signal \<notin> {SIGINT sg, SIGTERM sg, SIGHUP sg, SIGUSR1 sg, SIGUSR2 sg} \<longrightarrow> fst (signalHandler sg signal d e) = d"
    by (simp add: signalHandler_object)
  have 6: "calls (snd (signalHandler sg signal d e)) = calls e"
    by (simp add: signalHandler_process)
  have 7: "host (snd (signalHandler sg signal d e)) = host e"
    by (simp add: signalHandler_process)
  show ?thesis
    by (intro conjI) (rule 1 2 3 4 5 6 7 signalHandler_process)+
qed

theorem signalHandler_state_write_and_log_witness:
  "signals_distinct linux_signals
   \<and> fst (signalHandler linux_signals 2 Daemon_instance process0) = Daemon_instance\<lparr>m_State := Stop\<rparr>
   \<and> fst (signalHandler linux_signals 15 Daemon_instance process0) = Daemon_instance\<lparr>m_State := Stop\<rparr>
   \<and> fst (signalHandler linux_signals 1 Daemon_instance process0) = Daemon_instance\<lparr>m_State := Reload\<rparr>
   \<and> fst (signalHandler linux_signals 10 Daemon_instance process0) = Daemon_instance\<lparr>m_State := User1\<rparr>
   \<and> fst (signalHandler linux_signals 12 Daemon_instance process0) = Daemon_instance\<lparr>m_State := User2\<rparr>
   \<and> fst (signalHandler linux_signals 17 Daemon_instance process0) = Daemon_instance
   \<and> calls (snd (signalHandler linux_signals 1 Daemon_instance process0)) = calls process0"
proof -
  have ok: "signals_distinct linux_signals"
    by (simp add: signals_distinct_def linux_signals_def kExitSignal_def kTerminateSignal_def
        kReloadSignal_def kUserSignal1_def kUserSignal2_def)
  show ?thesis
    using ok
      signalHandler_state_write_and_log [OF ok, of 2 Daemon_instance process0]
      signalHandler_state_write_and_log [OF ok, of 15 Daemon_instance process0]
      signalHandler_state_write_and_log [OF ok, of 1 Daemon_instance process0]
      signalHandler_state_write_and_log [OF ok, of 10 Daemon_instance process0]
      signalHandler_state_write_and_log [OF ok, of 12 Daemon_instance process0]
      signalHandler_state_write_and_log [OF ok, of 17 Daemon_instance process0]
    by (simp add: linux_signals_def)
qed

subsection \<open>Signals between two polls\<close>

lemma deliver_snoc:
  "deliver sg (signals @ [signal]) d e =
     (case deliver sg signals d e of (d1, e1) \<Rightarrow> signalHandler sg signal d1 e1)"
  by (induction signals arbitrary: d e) (simp_all add: split_def Let_def)

lemma signalHandler_installed:
  assumes "signal \<in> set (installed_signals sg)"
  shows "m_State (fst (signalHandler sg signal d e)) = m_State (fst (signalHandler sg signal d0 e0))"
proof -
  from assms have "signal = SIGINT sg \<or> signal = SIGTERM sg \<or> signal = SIGHUP sg
      \<or> signal = SIGUSR1 sg \<or> signal = SIGUSR2 sg"
    by (simp add: installed_signals_def kExitSignal_def kTerminateSignal_def
      kReloadSignal_def kUserSignal1_def kUserSignal2_def)
  then show ?thesis
    by (elim disjE) (simp_all add: signalHandler_object)
qed

lemma signalHandler_frame:
  "calls (snd (signalHandler sg signal d e)) = calls e"
  "host (snd (signalHandler sg signal d e)) = host e"
  "associated_handler (fst (signalHandler sg signal d e))
     = associated_handler (d\<lparr>m_State := m_State (fst (signalHandler sg signal d e))\<rparr>)"
  by (simp_all add: signalHandler_process signalHandler_object associated_handler_def)

lemma deliver_frame:
  "calls (snd (deliver sg signals d e)) = calls e \<and> host (snd (deliver sg signals d e)) = host e
   \<and> fst (deliver sg signals d e) = d\<lparr>m_State := m_State (fst (deliver sg signals d e))\<rparr>"
proof (induction signals arbitrary: d e)
  case Nil
  show ?case by simp
next
  case (Cons signal rest)
  obtain d1 e1 where h: "signalHandler sg signal d e = (d1, e1)" by (cases "signalHandler sg signal d e")
  have c: "calls e1 = calls e" "host e1 = host e"
    using signalHandler_frame(1,2) [of sg signal d e] h by simp_all
  have o: "d1 = d\<lparr>m_State := m_State d1\<rparr>"
    using signalHandler_object [of sg signal d e] h by (simp split: if_splits)
  from Cons [of d1 e1] have "fst (deliver sg rest d1 e1) = d1\<lparr>m_State := m_State (fst (deliver sg rest d1 e1))\<rparr>"
    by simp
  with o have "fst (deliver sg rest d1 e1) = d\<lparr>m_State := m_State (fst (deliver sg rest d1 e1))\<rparr>"
    by (metis Daemon.update_convs(1) Daemon.surjective)
  with Cons [of d1 e1] c h show ?case by simp
qed


lemma deliver_last:
  assumes "signals \<noteq> []" and "last signals \<in> set (installed_signals sg)"
  shows "m_State (fst (deliver sg signals d e)) = m_State (fst (signalHandler sg (last signals) d0 e0))"
proof -
  from assms(1) obtain front where s: "signals = front @ [last signals]"
    by (metis append_butlast_last_id)
  obtain d1 e1 where h: "deliver sg front d e = (d1, e1)" by (cases "deliver sg front d e")
  have "deliver sg signals d e = signalHandler sg (last signals) d1 e1"
    using deliver_snoc [of sg front "last signals" d e] s h by simp
  then show ?thesis
    using signalHandler_installed [OF assms(2), of d1 e1 d0 e0] by simp
qed

lemma isRunning_calls:
  "calls (snd (snd (isRunning d e))) =
     calls e @ (if transient (m_State d) \<and> associated_handler d \<noteq> None
                then [(associated_hook (m_State d), Running)] else [])"
  by (simp add: isRunning_eq split: option.splits)

lemma isRunning_again:
  "isRunning (fst (snd (isRunning d e))) (snd (snd (isRunning d e))) = isRunning d e"
proof -
  obtain b d2 e2 where h: "isRunning d e = (b, d2, e2)" by (cases "isRunning d e")
  have n: "\<not> transient (m_State d2)" using isRunning_not_transient [of d e] h by simp
  have b: "b = (m_State d2 = Running)" using isRunning_result [of d e] h by simp
  show ?thesis using h n b by (simp add: isRunning_eq [of d2 e2])
qed

text \<open>
  C2. Whatever signals are delivered between two polls, the state that the next
  \<^verbatim>\<open>isRunning()\<close> finds is the one that the last of them writes: the last write wins.
  The handler itself calls nothing and leaves the registered handlers alone. A
  transient state written by the last signal is consumed by that poll: the state goes
  to \<open>Running\<close>, the member of that state, if set, runs once on the host's state (one log
  entry, taken at \<open>Running\<close>), an explicit \<^verbatim>\<open>false\<close> sends the state to \<open>Stop\<close>, and the poll
  answers whether the state is \<open>Running\<close>; a state that is not transient is left as it
  is. The state is not transient afterwards, and a second poll without a signal in
  between calls nothing more: it changes neither the object nor the process and
  returns the same answer.
\<close>

theorem last_signal_wins:
  assumes "signals \<noteq> []" and "last signals \<in> set (installed_signals sg)"
  shows "case deliver sg signals d e of (d1, e1) \<Rightarrow>
           (case isRunning d1 e1 of (b, d2, e2) \<Rightarrow>
              m_State d1 = m_State (fst (signalHandler sg (last signals) da ea))
            \<and> d1 = d\<lparr>m_State := m_State d1\<rparr>
            \<and> calls e1 = calls e \<and> host e1 = host e
            \<and> (b, d2, e2) =
                (if transient (m_State d1) then
                   (case associated_handler d1 of
                      None \<Rightarrow> (True, d1\<lparr>m_State := Running\<rparr>, e1)
                    | Some f \<Rightarrow>
                        (fst (f (host e)) \<noteq> Some False,
                         d1\<lparr>m_State := (if fst (f (host e)) = Some False then Stop else Running)\<rparr>,
                         e1\<lparr>host := snd (f (host e)),
                            calls := calls e @ [(associated_hook (m_State d1), Running)]\<rparr>))
                 else (m_State d1 = Running, d1, e1))
            \<and> calls e2 = calls e @ (if transient (m_State d1) \<and> associated_handler d1 \<noteq> None
                                     then [(associated_hook (m_State d1), Running)] else [])
            \<and> \<not> transient (m_State d2)
            \<and> isRunning d2 e2 = (b, d2, e2))"
proof -
  obtain d1 e1 where h1: "deliver sg signals d e = (d1, e1)" by (cases "deliver sg signals d e")
  obtain b d2 e2 where h2: "isRunning d1 e1 = (b, d2, e2)" by (cases "isRunning d1 e1")
  have 1: "m_State d1 = m_State (fst (signalHandler sg (last signals) da ea))"
    using deliver_last [OF assms, of d e da ea] h1 by simp
  have 2: "calls e1 = calls e" "host e1 = host e" and 6: "d1 = d\<lparr>m_State := m_State d1\<rparr>"
    using deliver_frame [of sg signals d e] h1 by simp_all
  have 3: "calls e2 = calls e @ (if transient (m_State d1) \<and> associated_handler d1 \<noteq> None
                                     then [(associated_hook (m_State d1), Running)] else [])"
    using isRunning_calls [of d1 e1] h2 2 by simp
  have 4: "\<not> transient (m_State d2)"
    using isRunning_not_transient [of d1 e1] h2 by simp
  have 5: "isRunning d2 e2 = (b, d2, e2)"
    using isRunning_again [of d1 e1] h2 by simp
  have 7: "(b, d2, e2) =
                (if transient (m_State d1) then
                   (case associated_handler d1 of
                      None \<Rightarrow> (True, d1\<lparr>m_State := Running\<rparr>, e1)
                    | Some f \<Rightarrow>
                        (fst (f (host e)) \<noteq> Some False,
                         d1\<lparr>m_State := (if fst (f (host e)) = Some False then Stop else Running)\<rparr>,
                         e1\<lparr>host := snd (f (host e)),
                            calls := calls e @ [(associated_hook (m_State d1), Running)]\<rparr>))
                 else (m_State d1 = Running, d1, e1))"
    using isRunning_eq [of d1 e1] h2 2 by (simp split: option.splits)
  show ?thesis
    unfolding h1 h2 prod.case
    by (intro conjI) (rule 1 6 2 7 3 4 5)+
qed

text \<open>
  The theorem at a concrete input: interrupt, user signal 1 and hang-up arrive in this
  order before a poll, and the reload handler reports a failure. The reload handler is
  the only one that is called, once; the host's counter goes from 0 to 1, the state
  ends in \<open>Stop\<close> and the poll answers false.
\<close>

theorem last_signal_wins_witness:
  "[2, 10, 1] \<noteq> [] \<and> last [2, 10, 1] \<in> set (installed_signals linux_signals)
   \<and> (case deliver linux_signals [2, 10, 1] (Daemon_instance\<lparr>m_HandlerReload := Some (counting (Some False))\<rparr>) process0 of
        (d1, e1) \<Rightarrow> m_State d1 = Reload \<and> calls e1 = [] \<and> host e1 = 0 \<and>
          (case isRunning d1 e1 of (b, d2, e2) \<Rightarrow>
             b = False \<and> m_State d2 = Stop \<and> host e2 = 1
             \<and> calls e2 = [(OnReload, Running)] \<and> \<not> transient (m_State d2)
             \<and> isRunning d2 e2 = (b, d2, e2)))"
proof -
  let ?d = "Daemon_instance\<lparr>m_HandlerReload := Some (counting (Some False))\<rparr> :: nat Daemon"
  have a: "[2, 10, 1] \<noteq> ([]::int list)" by simp
  have b: "last [2, 10, 1] \<in> set (installed_signals linux_signals)"
    by (simp add: installed_signals_def linux_signals_def kExitSignal_def kTerminateSignal_def
      kReloadSignal_def kUserSignal1_def kUserSignal2_def)
  have c: "m_State (fst (signalHandler linux_signals 1 (Daemon_instance :: nat Daemon) process0)) = Reload"
    by (simp add: signalHandler_object linux_signals_def)
  obtain d1 e1 where h1: "deliver linux_signals [2, 10, 1] ?d process0 = (d1, e1)"
    by (cases "deliver linux_signals [2, 10, 1] ?d process0")
  obtain r d2 e2 where h2: "isRunning d1 e1 = (r, d2, e2)" by (cases "isRunning d1 e1")
  have l: "last [2, 10, 1] = (1::int)" by simp
  note t = last_signal_wins [OF a b, where d = ?d and e = process0
        and da = "Daemon_instance :: nat Daemon" and ea = process0, unfolded h1 h2 prod.case l c]
  from t have s1: "m_State d1 = Reload" by (elim conjE)
  from t have o1: "d1 = ?d\<lparr>m_State := m_State d1\<rparr>" by (elim conjE)
  from t have c1: "calls e1 = calls process0" by (elim conjE)
  from t have w1: "host e1 = host process0" by (elim conjE)
  from t have again: "isRunning d2 e2 = (r, d2, e2)" by (elim conjE)
  from t have nt: "\<not> transient (m_State d2)" by (elim conjE)
  from t have poll: "(r, d2, e2) =
      (if transient (m_State d1) then
         (case associated_handler d1 of
            None \<Rightarrow> (True, d1\<lparr>m_State := Running\<rparr>, e1)
          | Some f \<Rightarrow>
              (fst (f (host process0)) \<noteq> Some False,
               d1\<lparr>m_State := (if fst (f (host process0)) = Some False then Stop else Running)\<rparr>,
               e1\<lparr>host := snd (f (host process0)),
                  calls := calls process0 @ [(associated_hook (m_State d1), Running)]\<rparr>))
       else (m_State d1 = Running, d1, e1))"
    by (elim conjE)
  have "m_HandlerReload d1 = m_HandlerReload (?d\<lparr>m_State := m_State d1\<rparr>)"
    using o1 by simp
  then have hd: "associated_handler d1 = Some (counting (Some False))"
    using s1 by (simp add: associated_handler_def)
  from poll s1 hd have res: "r = False" "m_State d2 = Stop" "host e2 = 1"
      "calls e2 = [(OnReload, Running)]"
    by (simp_all add: transient_def associated_hook_def counting_def process0_def)
  from a b s1 c1 w1 res nt again show ?thesis
    unfolding h1 h2 prod.case by (simp add: process0_def)
qed

section \<open>Properties of makeDaemon\<close>

subsection \<open>The cases of the first call, and what every call leaves alone\<close>

lemma makeDaemon_initialized: "m_IsInitialized d \<Longrightarrow> makeDaemon os name d e = (Some False, d, e)"
  by (simp add: makeDaemon_def)

lemma writePidToFile_frame:
  "calls (snd (writePidToFile os name e)) = calls e"
  "host (snd (writePidToFile os name e)) = host e"
  "pid (snd (writePidToFile os name e)) = pid e"
  "daemon_calls (snd (writePidToFile os name e)) = daemon_calls e"
  by (simp_all add: writePidToFile_def fstream_put_def fstream_open_out_def Let_def)

lemma posix_daemon_frame:
  "calls (snd (posix_daemon os e)) = calls e"
  "host (snd (posix_daemon os e)) = host e"
  "files (snd (posix_daemon os e)) = files e"
  "daemon_calls (snd (posix_daemon os e)) = Suc (daemon_calls e)"
  by (simp_all add: posix_daemon_def Let_def split: option.splits)

lemma makeDaemon_frame:
  "calls (snd (snd (makeDaemon os name d e))) = calls e"
  "host (snd (snd (makeDaemon os name d e))) = host e"
  by (simp_all add: makeDaemon_def Let_def split_def writePidToFile_frame posix_daemon_frame)

lemma makeDaemon_sets_guard: "m_IsInitialized (fst (snd (makeDaemon os name d e)))"
  by (simp add: makeDaemon_def Let_def split_def)

lemma makeDaemon_calls_initialized:
  "m_IsInitialized d \<Longrightarrow> makeDaemon_calls cs d e = (replicate (length cs) (Some False), d, e)"
  by (induction cs) (auto simp: makeDaemon_initialized)

lemma makeDaemon_detach_fails:
  assumes "\<not> m_IsInitialized d" and "daemon_child os = None"
  shows "makeDaemon os name d e =
     (Some False, d\<lparr>m_IsInitialized := True, m_PidFileName := name\<rparr>,
      e\<lparr>daemon_calls := Suc (daemon_calls e),
        cerr := cerr e @ ''Failed demonizing: '' @ strerror_errno os @ endl\<rparr>)"
  using assms by (simp add: makeDaemon_def posix_daemon_def Let_def)

lemma makeDaemon_open_fails:
  assumes "\<not> m_IsInitialized d" and "daemon_child os = Some child"
    and "name \<noteq> []" and "\<not> can_open os name"
  shows "makeDaemon os name d e =
     (Some False, d\<lparr>m_IsInitialized := True, m_PidFileName := name\<rparr>,
      e\<lparr>daemon_calls := Suc (daemon_calls e), pid := child,
        cerr := cerr e @ ''Failed to open '' @ name @ endl\<rparr>)"
  using assms by (simp add: makeDaemon_def posix_daemon_def writePidToFile_def Let_def)

lemma makeDaemon_writes:
  assumes "\<not> m_IsInitialized d" and "daemon_child os = Some child"
    and "name \<noteq> []" and "can_open os name" and "can_write os name"
  shows "makeDaemon os name d e =
     (Some True, d\<lparr>m_IsInitialized := True, m_PidFileName := name, m_Pid := child\<rparr>,
      e\<lparr>daemon_calls := Suc (daemon_calls e), pid := child,
        files := (files e)(name \<mapsto> to_string child)\<rparr>)"
  using assms
  by (simp add: makeDaemon_def posix_daemon_def writePidToFile_def fstream_put_def
      fstream_open_out_def Let_def)

lemma makeDaemon_write_fails:
  assumes "\<not> m_IsInitialized d" and "daemon_child os = Some child"
    and "name \<noteq> []" and "can_open os name" and "\<not> can_write os name"
  shows "makeDaemon os name d e =
     (Some True, d\<lparr>m_IsInitialized := True, m_PidFileName := name, m_Pid := child\<rparr>,
      e\<lparr>daemon_calls := Suc (daemon_calls e), pid := child,
        files := (files e)(name \<mapsto> [])\<rparr>)"
  using assms
  by (simp add: makeDaemon_def posix_daemon_def writePidToFile_def fstream_put_def
      fstream_open_out_def Let_def)

lemma makeDaemon_no_file:
  assumes "\<not> m_IsInitialized d" and "daemon_child os = Some child"
  shows "makeDaemon os [] d e =
     (Some True, d\<lparr>m_IsInitialized := True, m_PidFileName := [], m_Pid := child\<rparr>,
      e\<lparr>daemon_calls := Suc (daemon_calls e), pid := child\<rparr>)"
  using assms by (simp add: makeDaemon_def posix_daemon_def writePidToFile_def Let_def)


subsection \<open>Decimal strings\<close>

text \<open>
  The digits that are printed for a number read back as that number, there is at least
  one, and only the number zero starts with the digit zero.
\<close>

lemma digits_step: "\<not> n < 10 \<Longrightarrow> digits n = digits (n div 10) @ [digit_char n]"
  by (subst digits.simps) simp

lemma digit_val_digit_char: "digit_val (digit_char n) = Some (n mod 10)"
proof -
  have "m = 0 \<or> m = 1 \<or> m = 2 \<or> m = 3 \<or> m = 4 \<or> m = 5 \<or> m = 6 \<or> m = 7 \<or> m = 8 \<or> m = 9"
    if "m < 10" for m :: nat
    using that by arith
  then have "n mod 10 = 0 \<or> n mod 10 = 1 \<or> n mod 10 = 2 \<or> n mod 10 = 3 \<or> n mod 10 = 4
      \<or> n mod 10 = 5 \<or> n mod 10 = 6 \<or> n mod 10 = 7 \<or> n mod 10 = 8 \<or> n mod 10 = 9"
    by simp
  then show ?thesis
    by (elim disjE) (simp_all add: digit_val_def digit_char_def)
qed

lemma digit_char_zero: "n < 10 \<Longrightarrow> digit_char n = CHR ''0'' \<Longrightarrow> n = 0"
  using digit_val_digit_char [of n] by (simp add: digit_val_def)

lemma dec_value_append:
  "dec_value acc (xs @ ys) = (case dec_value acc xs of None \<Rightarrow> None | Some a \<Rightarrow> dec_value a ys)"
  by (induction xs arbitrary: acc) (simp_all split: option.splits)

lemma digits_not_empty: "digits n \<noteq> []"
  by (cases "n < 10") (simp_all add: digits_small digits_step)

lemma dec_value_digits: "dec_value 0 (digits n) = Some n"
proof (induction n rule: digits.induct)
  case (1 n)
  show ?case
  proof (cases "n < 10")
    case True
    then show ?thesis by (simp add: digits_small digit_val_digit_char)
  next
    case False
    with 1 have "dec_value 0 (digits (n div 10)) = Some (n div 10)" by simp
    with False show ?thesis
      by (simp add: digits_step dec_value_append digit_val_digit_char)
  qed
qed

lemma digits_no_leading_zero: "hd (digits n) = CHR ''0'' \<Longrightarrow> n = 0"
proof (induction n rule: digits.induct)
  case (1 n)
  show ?case
  proof (cases "n < 10")
    case True
    with 1(2) show ?thesis by (simp add: digits_small digit_char_zero)
  next
    case False
    with 1(2) have "hd (digits (n div 10)) = CHR ''0''"
      by (simp add: digits_step digits_not_empty)
    with 1(1) False have "n div 10 = 0" by simp
    with False show ?thesis by simp
  qed
qed

lemma to_string_decimal:
  assumes "0 \<le> i"
  shows "dec_value 0 (to_string i) = Some (nat i)" and "to_string i \<noteq> []"
    and "hd (to_string i) = CHR ''0'' \<Longrightarrow> i = 0"
  using assms digits_no_leading_zero [of "nat i"]
  by (simp_all add: to_string_def dec_value_digits digits_not_empty)

lemma to_string_4711: "to_string 4711 = ''4711''"
  by (simp add: to_string_def digits_step digits_small digit_char_def)

subsection \<open>Operations of the host\<close>

lemma run_operation_guard:
  "m_IsInitialized d \<Longrightarrow> m_IsInitialized (fst (run_operation x d e))"
proof (cases x)
  case IsRunning
  assume "m_IsInitialized d"
  with IsRunning show ?thesis by (simp add: isRunning_eq split: option.splits)
next
  case (Signal sg signal)
  assume "m_IsInitialized d"
  with Signal show ?thesis by (simp add: signalHandler_object)
next
  case (MakeDaemon os name)
  then show ?thesis by (simp add: makeDaemon_sets_guard)
qed (simp_all add: startAll_eq closeAll_eq reloadAll_def setState_def setStartFunction_def
    setReloadFunction_def setUser1Function_def setUser2Function_def setCloseFunction_def
    split: option.splits)

lemma run_operations_guard:
  "m_IsInitialized d \<Longrightarrow> m_IsInitialized (fst (run_operations ops d e))"
proof (induction ops arbitrary: d e)
  case Nil
  then show ?case by simp
next
  case (Cons x xs)
  obtain d1 e1 where h: "run_operation x d e = (d1, e1)" by (cases "run_operation x d e")
  with Cons.prems run_operation_guard [of d x e] have "m_IsInitialized d1" by simp
  from Cons.IH [OF this, of e1] h show ?case by simp
qed

lemma run_operation_files:
  "m_IsInitialized d \<Longrightarrow>
     files (snd (run_operation x d e)) = files e
     \<and> daemon_calls (snd (run_operation x d e)) = daemon_calls e"
proof (cases x)
  case IsRunning
  then show ?thesis by (simp add: isRunning_eq split: option.splits)
next
  case (Signal sg signal)
  then show ?thesis by (simp add: signalHandler_process)
next
  case (MakeDaemon os name)
  assume "m_IsInitialized d"
  with MakeDaemon show ?thesis by (simp add: makeDaemon_initialized)
qed (simp_all add: startAll_eq closeAll_eq reloadAll_def split: option.splits)

lemma run_operations_files:
  "m_IsInitialized d \<Longrightarrow>
     files (snd (run_operations ops d e)) = files e
     \<and> daemon_calls (snd (run_operations ops d e)) = daemon_calls e"
proof (induction ops arbitrary: d e)
  case Nil
  then show ?case by simp
next
  case (Cons x xs)
  obtain d1 e1 where h: "run_operation x d e = (d1, e1)" by (cases "run_operation x d e")
  from Cons.prems run_operation_guard [of d x e] h have g: "m_IsInitialized d1" by simp
  from Cons.prems run_operation_files [of d x e] h
  have f: "files e1 = files e" "daemon_calls e1 = daemon_calls e" by simp_all
  from Cons.IH [OF g, of e1] h f show ?case by simp
qed

lemma run_operation_reload_calls:
  "x \<noteq> IsRunning \<Longrightarrow> calls_of OnReload (snd (run_operation x d e)) = calls_of OnReload e"
proof (cases x)
  case (Signal sg signal)
  then show ?thesis by (simp add: calls_of_def signalHandler_process)
next
  case (MakeDaemon os name)
  then show ?thesis by (simp add: calls_of_def makeDaemon_frame)
qed (simp_all add: calls_of_def startAll_eq closeAll_eq reloadAll_def split: option.splits)

lemma run_operations_reload_calls:
  "IsRunning \<notin> set ops \<Longrightarrow> calls_of OnReload (snd (run_operations ops d e)) = calls_of OnReload e"
proof (induction ops arbitrary: d e)
  case Nil
  then show ?case by simp
next
  case (Cons x xs)
  obtain d1 e1 where h: "run_operation x d e = (d1, e1)" by (cases "run_operation x d e")
  from Cons.prems have "x \<noteq> IsRunning" "IsRunning \<notin> set xs" by auto
  with Cons.IH [of d1 e1] run_operation_reload_calls [of x d e] h show ?case by simp
qed

subsection \<open>The PID file\<close>

text \<open>
  C7, as it is stated, fails: the detach and the open can both succeed and the write
  still fail. The file was truncated by the open, nothing reaches it, and it does not
  hold the decimal string of the process id; the code does not look at the stream
  after writing. At a concrete input: the process becomes process 4711, \<^verbatim>\<open>test.pid\<close> held
  an older id and can be opened, and the write fails.
\<close>

theorem makeDaemon_pid_file_counterexample:
  "\<not> m_IsInitialized (Daemon_instance :: nat Daemon)
   \<and> ''test.pid'' \<noteq> []
   \<and> daemon_child posix_write_fails = Some 4711
   \<and> can_open posix_write_fails ''test.pid''
   \<and> makeDaemon posix_write_fails ''test.pid'' Daemon_instance
         (process0\<lparr>pid := 4710, files := [''test.pid'' \<mapsto> ''977'']\<rparr>)
       = (Some True,
          Daemon_instance\<lparr>m_IsInitialized := True, m_PidFileName := ''test.pid'', m_Pid := 4711\<rparr>,
          process0\<lparr>daemon_calls := 1, pid := 4711, files := [''test.pid'' \<mapsto> []]\<rparr>)
   \<and> files (snd (snd (makeDaemon posix_write_fails ''test.pid'' Daemon_instance
         (process0\<lparr>pid := 4710, files := [''test.pid'' \<mapsto> ''977'']\<rparr>)))) ''test.pid''
       \<noteq> Some (to_string 4711)"
proof -
  have run: "makeDaemon posix_write_fails ''test.pid'' Daemon_instance
         (process0\<lparr>pid := 4710, files := [''test.pid'' \<mapsto> ''977'']\<rparr>)
       = (Some True,
          Daemon_instance\<lparr>m_IsInitialized := True, m_PidFileName := ''test.pid'', m_Pid := 4711\<rparr>,
          process0\<lparr>daemon_calls := 1, pid := 4711, files := [''test.pid'' \<mapsto> []]\<rparr>)"
    by (simp add: makeDaemon_def posix_daemon_def writePidToFile_def fstream_put_def
        fstream_open_out_def Let_def Daemon_instance_def process0_def posix_write_fails_def)
  have pre: "\<not> m_IsInitialized (Daemon_instance :: nat Daemon)"
      "daemon_child posix_write_fails = Some 4711" "can_open posix_write_fails ''test.pid''"
    by (simp_all add: Daemon_instance_def posix_write_fails_def)
  have differ: "Some [] \<noteq> Some (to_string 4711)"
    by (simp add: to_string_4711)
  from pre differ show ?thesis
    unfolding run by simp
qed

text \<open>
  C7, amended. On the first call of \<^verbatim>\<open>makeDaemon\<close>, when the detach succeeds: with a
  non-empty path that can be opened and a write that succeeds, the call returns true
  and the file at that path holds the decimal string of the id of the calling (now
  detached) process, and nothing else; the other files are as before. With the empty
  path no file is written at all, the PID-file step succeeds, and the call returns true.
  The string printed for an id reads back as that id and has no leading zero.
\<close>

theorem makeDaemon_pid_file:
  assumes "\<not> m_IsInitialized d" and "daemon_child os = Some child"
  shows "(name \<noteq> [] \<and> can_open os name \<and> can_write os name \<longrightarrow>
            makeDaemon os name d e =
              (Some True, d\<lparr>m_IsInitialized := True, m_PidFileName := name, m_Pid := child\<rparr>,
               e\<lparr>daemon_calls := Suc (daemon_calls e), pid := child,
                 files := (files e)(name \<mapsto> to_string child)\<rparr>))
   \<and> makeDaemon os [] d e =
         (Some True, d\<lparr>m_IsInitialized := True, m_PidFileName := [], m_Pid := child\<rparr>,
          e\<lparr>daemon_calls := Suc (daemon_calls e), pid := child\<rparr>)
   \<and> writePidToFile os [] e = (True, e)
   \<and> (0 \<le> child \<longrightarrow> dec_value 0 (to_string child) = Some (nat child) \<and> to_string child \<noteq> []
         \<and> (hd (to_string child) = CHR ''0'' \<longrightarrow> child = 0))"
proof (intro conjI)
  show "name \<noteq> [] \<and> can_open os name \<and> can_write os name \<longrightarrow>
            makeDaemon os name d e =
              (Some True, d\<lparr>m_IsInitialized := True, m_PidFileName := name, m_Pid := child\<rparr>,
               e\<lparr>daemon_calls := Suc (daemon_calls e), pid := child,
                 files := (files e)(name \<mapsto> to_string child)\<rparr>)"
    using makeDaemon_writes [OF assms] by blast
  show "makeDaemon os [] d e =
         (Some True, d\<lparr>m_IsInitialized := True, m_PidFileName := [], m_Pid := child\<rparr>,
          e\<lparr>daemon_calls := Suc (daemon_calls e), pid := child\<rparr>)"
    by (rule makeDaemon_no_file [OF assms])
  show "writePidToFile os [] e = (True, e)"
    by (simp add: writePidToFile_def)
  show "0 \<le> child \<longrightarrow> dec_value 0 (to_string child) = Some (nat child) \<and> to_string child \<noteq> []
         \<and> (hd (to_string child) = CHR ''0'' \<longrightarrow> child = 0)"
    using to_string_decimal [of child] by blast
qed

text \<open>
  The theorem at a concrete input: a process that becomes process 4711 on detaching and
  writes \<^verbatim>\<open>test.pid\<close>, which held an older id.
\<close>

theorem makeDaemon_pid_file_witness:
  "\<not> m_IsInitialized (Daemon_instance :: nat Daemon)
   \<and> daemon_child \<lparr>daemon_child = Some 4711, strerror_errno = [], can_open = (\<lambda>_. True), can_write = (\<lambda>_. True)\<rparr> = Some 4711
   \<and> makeDaemon \<lparr>daemon_child = Some 4711, strerror_errno = [], can_open = (\<lambda>_. True), can_write = (\<lambda>_. True)\<rparr> ''test.pid''
         Daemon_instance (process0\<lparr>pid := 4710, files := [''test.pid'' \<mapsto> ''977'']\<rparr>)
       = (Some True, Daemon_instance\<lparr>m_IsInitialized := True, m_PidFileName := ''test.pid'', m_Pid := 4711\<rparr>,
          process0\<lparr>daemon_calls := 1, pid := 4711, files := [''test.pid'' \<mapsto> ''4711'']\<rparr>)
   \<and> dec_value 0 ''4711'' = Some 4711"
  using makeDaemon_pid_file [of "Daemon_instance :: nat Daemon"
      "\<lparr>daemon_child = Some 4711, strerror_errno = [], can_open = (\<lambda>_. True), can_write = (\<lambda>_. True)\<rparr>" 4711 "''test.pid''"
      "process0\<lparr>pid := 4710, files := [''test.pid'' \<mapsto> ''977'']\<rparr>"]
  by (simp add: Daemon_instance_def process0_def to_string_4711)

subsection \<open>Later calls\<close>

text \<open>
  C8. After a first call of \<^verbatim>\<open>makeDaemon\<close>, whatever it returned, every later call
  returns false and changes nothing: not the object, and nothing of the process (no
  further call of \<^verbatim>\<open>daemon\<close>, no file written, nothing printed), whatever path it is given
  and whatever the operating system would answer. This holds for a call that follows
  at once, for any number of such calls in a row, and for a call made after any other
  operations on the singleton.
\<close>

theorem makeDaemon_later_calls:
  "(case makeDaemon os name d e of (r, d1, e1) \<Rightarrow>
      m_IsInitialized d1
    \<and> makeDaemon os' name' d1 e1 = (Some False, d1, e1)
    \<and> makeDaemon_calls ((os, name) # rest) d e = (r # replicate (length rest) (Some False), d1, e1)
    \<and> (case run_operations ops d1 e1 of (d2, e2) \<Rightarrow>
          makeDaemon os' name' d2 e2 = (Some False, d2, e2)))"
proof -
  obtain r d1 e1 where h: "makeDaemon os name d e = (r, d1, e1)" by (cases "makeDaemon os name d e")
  have g: "m_IsInitialized d1" using makeDaemon_sets_guard [of os name d e] h by simp
  obtain d2 e2 where k: "run_operations ops d1 e1 = (d2, e2)" by (cases "run_operations ops d1 e1")
  have g2: "m_IsInitialized d2" using run_operations_guard [OF g, of ops e1] k by simp
  show ?thesis
    using h g k g2 by (simp add: makeDaemon_initialized makeDaemon_calls_initialized)
qed

subsection \<open>A failed first call\<close>

text \<open>
  C9. When the first call of \<^verbatim>\<open>makeDaemon\<close> fails, because \<^verbatim>\<open>daemon\<close> fails or because the
  PID file cannot be opened, it returns false and the guard is set all the same. Every
  later call returns false and retries nothing: after any number of later calls, and
  after any operations on the singleton, the files are as they were before the first
  call and \<^verbatim>\<open>daemon\<close> has been called exactly once.
\<close>

theorem makeDaemon_failed_first_call:
  assumes "\<not> m_IsInitialized d"
    and "daemon_child os = None \<or> (name \<noteq> [] \<and> \<not> can_open os name)"
  shows "(case makeDaemon os name d e of (r, d1, e1) \<Rightarrow>
      r = Some False \<and> m_IsInitialized d1 \<and> m_Pid d1 = m_Pid d
    \<and> files e1 = files e \<and> daemon_calls e1 = Suc (daemon_calls e)
    \<and> makeDaemon_calls rest d1 e1 = (replicate (length rest) (Some False), d1, e1)
    \<and> files (snd (run_operations ops d1 e1)) = files e
    \<and> daemon_calls (snd (run_operations ops d1 e1)) = Suc (daemon_calls e))"
proof -
  obtain r d1 e1 where h: "makeDaemon os name d e = (r, d1, e1)" by (cases "makeDaemon os name d e")
  have g: "m_IsInitialized d1" using makeDaemon_sets_guard [of os name d e] h by simp
  have first: "r = Some False \<and> m_Pid d1 = m_Pid d \<and> files e1 = files e
      \<and> daemon_calls e1 = Suc (daemon_calls e)"
  proof (cases "daemon_child os")
    case None
    show ?thesis
      using makeDaemon_detach_fails [OF assms(1) None, of name e] h by simp
  next
    case (Some child)
    with assms(2) have "name \<noteq> []" "\<not> can_open os name" by simp_all
    then show ?thesis
      using makeDaemon_open_fails [OF assms(1) Some, of name e] h by simp
  qed
  from h g first run_operations_files [OF g, of ops e1] show ?thesis
    by (simp add: makeDaemon_calls_initialized)
qed

text \<open>
  The theorem at a concrete input: the detach fails; a second call, for which the
  operating system would let the detach succeed, returns false and writes no file.
\<close>

theorem makeDaemon_failed_first_call_witness:
  "\<not> m_IsInitialized (Daemon_instance :: nat Daemon)
   \<and> daemon_child \<lparr>daemon_child = None, strerror_errno = ''Cannot allocate memory'', can_open = (\<lambda>_. True), can_write = (\<lambda>_. True)\<rparr> = None
   \<and> (case makeDaemon \<lparr>daemon_child = None, strerror_errno = ''Cannot allocate memory'', can_open = (\<lambda>_. True), can_write = (\<lambda>_. True)\<rparr>
            ''test.pid'' Daemon_instance process0 of (r, d1, e1) \<Rightarrow>
        r = Some False \<and> m_IsInitialized d1 \<and> files e1 = Map.empty \<and> daemon_calls e1 = 1
      \<and> makeDaemon_calls [(\<lparr>daemon_child = Some 4712, strerror_errno = [], can_open = (\<lambda>_. True), can_write = (\<lambda>_. True)\<rparr>, ''test.pid'')] d1 e1
          = ([Some False], d1, e1)
      \<and> files (snd (run_operations [StartAll, MakeDaemon \<lparr>daemon_child = Some 4712, strerror_errno = [], can_open = (\<lambda>_. True), can_write = (\<lambda>_. True)\<rparr> ''test.pid''] d1 e1))
          = Map.empty)"
  using makeDaemon_failed_first_call [of "Daemon_instance :: nat Daemon"
      "\<lparr>daemon_child = None, strerror_errno = ''Cannot allocate memory'', can_open = (\<lambda>_. True), can_write = (\<lambda>_. True)\<rparr>"
      "''test.pid''" process0
      "[(\<lparr>daemon_child = Some 4712, strerror_errno = [], can_open = (\<lambda>_. True), can_write = (\<lambda>_. True)\<rparr>, ''test.pid'')]"
      "[StartAll, MakeDaemon \<lparr>daemon_child = Some 4712, strerror_errno = [], can_open = (\<lambda>_. True), can_write = (\<lambda>_. True)\<rparr> ''test.pid'']"]
  by (simp add: Daemon_instance_def process0_def split: prod.splits del: run_operations.simps)

section \<open>Properties of reloadAll\<close>

text \<open>
  C10. \<^verbatim>\<open>reloadAll()\<close> writes the state \<open>Reload\<close> and returns no value; it calls no handler
  and leaves the process as it is. As long as the host does not call \<^verbatim>\<open>isRunning()\<close>, no
  operation on the singleton calls the reload handler. The \<^verbatim>\<open>isRunning()\<close> that follows
  \<^verbatim>\<open>reloadAll()\<close> is what calls it, once, if it is set.
\<close>

theorem reloadAll_only_writes_state:
  "reloadAll d e = (None, d\<lparr>m_State := Reload\<rparr>, e)
   \<and> (IsRunning \<notin> set ops \<longrightarrow>
        calls_of OnReload (snd (run_operations (ReloadAll # ops) d e)) = calls_of OnReload e)
   \<and> (case reloadAll d e of (r, d1, e1) \<Rightarrow>
        calls (snd (snd (isRunning d1 e1))) =
          calls e @ (case m_HandlerReload d of None \<Rightarrow> [] | Some f \<Rightarrow> [(OnReload, Running)]))"
proof (intro conjI)
  show "reloadAll d e = (None, d\<lparr>m_State := Reload\<rparr>, e)" by (simp add: reloadAll_def)
  show "IsRunning \<notin> set ops \<longrightarrow>
        calls_of OnReload (snd (run_operations (ReloadAll # ops) d e)) = calls_of OnReload e"
    using run_operations_reload_calls [of "ReloadAll # ops" d e] by simp
  show "case reloadAll d e of (r, d1, e1) \<Rightarrow>
        calls (snd (snd (isRunning d1 e1))) =
          calls e @ (case m_HandlerReload d of None \<Rightarrow> [] | Some f \<Rightarrow> [(OnReload, Running)])"
    by (simp add: reloadAll_def isRunning_calls transient_def associated_handler_def
        associated_hook_def split: option.splits)
qed

text \<open>
  The theorem at a concrete input: a host with a reload handler that reloads, starts,
  receives a hang-up signal, forces the state and closes, and never polls.
\<close>

theorem reloadAll_only_writes_state_witness:
  "IsRunning \<notin> set [StartAll, Signal linux_signals 1, SetState Reload, CloseAll]
   \<and> calls_of OnReload (snd (run_operations
        (ReloadAll # [StartAll, Signal linux_signals 1, SetState Reload, CloseAll])
        (Daemon_instance\<lparr>m_HandlerReload := Some (counting (Some True))\<rparr>) process0)) = []
   \<and> calls (snd (snd (isRunning (Daemon_instance\<lparr>m_HandlerReload := Some (counting (Some True)), m_State := Reload\<rparr>) process0)))
       = [(OnReload, Running)]"
proof -
  note t = reloadAll_only_writes_state [of "Daemon_instance\<lparr>m_HandlerReload := Some (counting (Some True))\<rparr>" process0
      "[StartAll, Signal linux_signals 1, SetState Reload, CloseAll]"]
  have a: "IsRunning \<notin> set [StartAll, Signal linux_signals 1, SetState Reload, CloseAll]"
    by simp
  have b: "calls_of OnReload process0 = []"
    by (simp add: calls_of_def process0_def)
  note 1 = t [THEN conjunct2, THEN conjunct1, THEN mp, OF a]
  from t [THEN conjunct2, THEN conjunct2]
  have 2: "calls (snd (snd (isRunning (Daemon_instance\<lparr>m_HandlerReload := Some (counting (Some True)), m_State := Reload\<rparr>) process0)))
       = [(OnReload, Running)]"
    by (simp add: reloadAll_def process0_def)
  from a 1 2 b show ?thesis by simp
qed

section \<open>Properties of the periodic task\<close>

subsection \<open>The stop callback of the worker\<close>

text \<open>
  An id that \<open>fresh_id\<close> gives is not in use, so destroying the callback that was just
  registered takes exactly that one off the list. \<^verbatim>\<open>registerStopCallback\<close> therefore leaves
  the stop state as it found it; only when stop was already requested does the callback
  run, once, inside the constructor.
\<close>

lemma fresh_id_fold: "fold (\<lambda>(i, _) m. max (Suc i) m) cbs a \<ge> a
    \<and> (\<forall>(j, c) \<in> set cbs. j < fold (\<lambda>(i, _) m. max (Suc i) m) cbs a)"
proof (induction cbs arbitrary: a)
  case Nil
  show ?case by simp
next
  case (Cons x xs)
  obtain i c where x: "x = (i, c)" by (cases x)
  from Cons [of "max (Suc i) a"] x show ?case by (auto simp: max_def split: if_splits)
qed

lemma fresh_id_fresh: "(j, c) \<in> set cbs \<Longrightarrow> j \<noteq> fresh_id cbs"
  using fresh_id_fold [of 0 cbs] by (auto simp: fresh_id_def)

lemma filter_fresh: "filter (\<lambda>(j, _). j \<noteq> fresh_id cbs) cbs = cbs"
  by (rule filter_True) (auto dest: fresh_id_fresh)

lemma registerStopCallback_eq:
  "registerStopCallback t = (if stop_flag t then notify_all t else t)"
  by (simp add: registerStopCallback_def stop_callback_ctor_def stop_callback_dtor_def
      stop_requested_def run_callback_def Let_def filter_fresh)

lemma request_stop_after_register:
  "\<not> stop_flag t \<Longrightarrow> stop_callbacks t = [] \<Longrightarrow>
     request_stop (registerStopCallback t) = (True, t\<lparr>stop_flag := True\<rparr>)"
  by (simp add: registerStopCallback_eq request_stop_def)

lemma request_stop_with_live_callback:
  "\<not> stop_flag t \<Longrightarrow> stop_callbacks t = [] \<Longrightarrow>
     request_stop (snd (stop_callback_ctor NotifyAll t))
       = (True, t\<lparr>stop_flag := True, notify_count := Suc (notify_count t)\<rparr>)"
  by (simp add: stop_callback_ctor_def stop_requested_def request_stop_def run_callback_def
      notify_all_def Let_def)

text \<open>
  C3 says that an observer registered on the stop token notifies the wake event when
  cancellation is requested, so that a sleeping worker wakes at once. The code at a
  concrete input: a worker is started with a duration of 60000 ms on a token without a
  stop request, and another thread calls \<^verbatim>\<open>request_stop()\<close> while the worker is in its first
  round. The worker has called \<^verbatim>\<open>wait_for\<close> with 60000 ms and leaves the loop after that
  round, but the condition variable has not been notified at all: the callback object
  was destroyed before the loop began. Had the object lived on, the request would have
  notified the event once.
\<close>

theorem runTask_stop_request_notifies_nobody:
  "runTask 1 60000 1 serve_same (\<lambda>k. k = 0) task_world0
     = Some (60000, task_world0\<lparr>served := 1, stop_flag := True,
               trace := [Serve 60000, WaitFor 60000]\<rparr>)
   \<and> notify_count (snd (the (runTask 1 60000 1 serve_same (\<lambda>k. k = 0) task_world0))) = 0
   \<and> notify_count (snd (request_stop (snd (stop_callback_ctor NotifyAll task_world0)))) = 1"
  by (simp add: runTask_def registerStopCallback_eq request_stop_def serve_same_def wait_for_def
      stop_requested_def task_world0_def stop_callback_ctor_def run_callback_def notify_all_def Let_def)


subsection \<open>The worker loop\<close>

lemma run_callbacks_frame:
  "served (fold (\<lambda>(_, cb). run_callback cb) cbs t) = served t
   \<and> trace (fold (\<lambda>(_, cb). run_callback cb) cbs t) = trace t
   \<and> stop_flag (fold (\<lambda>(_, cb). run_callback cb) cbs t) = stop_flag t"
  by (induction cbs arbitrary: t) (simp_all add: split_def run_callback_def notify_all_def split: callback.splits)

lemma request_stop_frame:
  "served (snd (request_stop t)) = served t"
  "trace (snd (request_stop t)) = trace t"
  "stop_flag (snd (request_stop t)) = True"
  by (simp_all add: request_stop_def run_callbacks_frame)

lemma registerStopCallback_frame:
  "served (registerStopCallback t) = served t"
  "trace (registerStopCallback t) = trace t"
  "stop_flag (registerStopCallback t) = stop_flag t"
  by (simp_all add: registerStopCallback_eq notify_all_def)

lemma runTask_loop_round:
  "runTask_loop (Suc fuel) zeroDuration serveFunction others k sooner t =
     (case spec_round zeroDuration serveFunction (sooner, served t, trace t) of (s2, w, tr) \<Rightarrow>
        (let t2 = t\<lparr>served := w, trace := tr\<rparr>;
             t3 = (if others k then snd (request_stop t2) else t2)
         in if stop_flag t3 then Some (s2, t3)
            else runTask_loop fuel zeroDuration serveFunction others (Suc k) s2 t3))"
  by (simp add: spec_round_def wait_for_def stop_requested_def Let_def split_def)

lemma runTask_loop_breaks:
  assumes "stop_flag t \<or> others (k + n)" and "\<forall>j<n. \<not> others (k + j)" and "stop_flag t \<longrightarrow> n = 0"
    and "n < fuel"
  shows "map_option (\<lambda>(s, t'). (s, served t', trace t'))
           (runTask_loop fuel zeroDuration serveFunction others k sooner t)
         = Some ((spec_round zeroDuration serveFunction ^^ Suc n) (sooner, served t, trace t))"
  using assms
proof (induction n arbitrary: fuel k sooner t)
  case 0
  then obtain f where f: "fuel = Suc f" by (cases fuel) simp_all
  obtain s2 w tr where r: "spec_round zeroDuration serveFunction (sooner, served t, trace t) = (s2, w, tr)"
    by (cases "spec_round zeroDuration serveFunction (sooner, served t, trace t)")
  from 0(1) show ?case
    by (auto simp: f r runTask_loop_round request_stop_frame Let_def simp del: runTask_loop.simps)
next
  case (Suc n)
  then obtain f where f: "fuel = Suc f" and nf: "n < f" by (cases fuel) simp_all
  obtain s2 w tr where r: "spec_round zeroDuration serveFunction (sooner, served t, trace t) = (s2, w, tr)"
    by (cases "spec_round zeroDuration serveFunction (sooner, served t, trace t)")
  from Suc.prems have nt: "\<not> stop_flag t" and nk: "\<not> others k" by auto
  let ?t2 = "t\<lparr>served := w, trace := tr\<rparr>"
  have step: "runTask_loop fuel zeroDuration serveFunction others k sooner t
      = runTask_loop f zeroDuration serveFunction others (Suc k) s2 ?t2"
    using nt nk by (simp add: f r runTask_loop_round Let_def del: runTask_loop.simps)
  have a: "stop_flag ?t2 \<or> others (Suc k + n)" using Suc.prems(1) nt by simp
  have b: "\<forall>j<n. \<not> others (Suc k + j)"
  proof (intro allI impI)
    fix j assume "j < n"
    then have "Suc j < Suc n" by simp
    with Suc.prems(2) have "\<not> others (k + Suc j)" by blast
    then show "\<not> others (Suc k + j)" by simp
  qed
  have c: "stop_flag ?t2 \<longrightarrow> n = 0" using nt by simp
  from Suc.IH [OF a b c nf, of s2]
  have "map_option (\<lambda>(s, t'). (s, served t', trace t'))
           (runTask_loop f zeroDuration serveFunction others (Suc k) s2 ?t2)
         = Some ((spec_round zeroDuration serveFunction ^^ Suc n) (s2, w, tr))"
    by simp
  with step r show ?case by (simp add: funpow_swap1)
qed

lemma runTask_loop_goes_on:
  assumes "\<not> stop_flag t" and "\<forall>j<fuel. \<not> others (k + j)"
  shows "runTask_loop fuel zeroDuration serveFunction others k sooner t = None"
  using assms
proof (induction fuel arbitrary: k sooner t)
  case 0
  show ?case by simp
next
  case (Suc fuel)
  obtain s2 w tr where r: "spec_round zeroDuration serveFunction (sooner, served t, trace t) = (s2, w, tr)"
    by (cases "spec_round zeroDuration serveFunction (sooner, served t, trace t)")
  from Suc.prems(2) have nk: "\<not> others k" by (metis add.right_neutral zero_less_Suc)
  have b: "\<forall>j<fuel. \<not> others (Suc k + j)"
  proof (intro allI impI)
    fix j assume "j < fuel"
    then have "Suc j < Suc fuel" by simp
    with Suc.prems(2) have "\<not> others (k + Suc j)" by blast
    then show "\<not> others (Suc k + j)" by simp
  qed
  have "\<not> stop_flag (t\<lparr>served := w, trace := tr\<rparr>)" using Suc.prems(1) by simp
  from Suc.IH [OF this b, of s2] Suc.prems(1) nk r show ?case
    by (simp add: runTask_loop_round Let_def del: runTask_loop.simps)
qed


text \<open>
  C4. The worker runs the loop that the specification words. When cancellation is first
  seen in round \<open>k\<close>, the worker returns after exactly \<open>k + 1\<close> rounds (given the fuel for
  them), and the duration, the host's state and the log of serve calls and waits are
  those of \<open>k + 1\<close> rounds of the specified body from \<open>remaining = initialDuration\<close>. As
  long as cancellation has not been seen the worker does not leave the loop.
\<close>

theorem runTask_is_specified_loop:
  "(cancellation_seen (stop_flag t) others k
      \<and> (\<forall>j<k. \<not> cancellation_seen (stop_flag t) others j) \<and> k < fuel \<longrightarrow>
      map_option (\<lambda>(s, t'). (s, served t', trace t'))
          (runTask fuel initialDuration minDuration stepFn others t)
        = Some (spec_rounds (Suc k) initialDuration minDuration stepFn (served t) (trace t)))
   \<and> ((\<forall>j<fuel. \<not> cancellation_seen (stop_flag t) others j) \<longrightarrow>
        runTask fuel initialDuration minDuration stepFn others t = None)"
proof (intro conjI impI)
  assume a: "cancellation_seen (stop_flag t) others k
      \<and> (\<forall>j<k. \<not> cancellation_seen (stop_flag t) others j) \<and> k < fuel"
  let ?t = "registerStopCallback t"
  have flag: "stop_flag ?t = stop_flag t" by (simp add: registerStopCallback_frame)
  have 1: "stop_flag ?t \<or> others (0 + k)"
  proof (cases "stop_flag t")
    case True
    then show ?thesis by (simp add: flag)
  next
    case False
    with a obtain j where j: "j \<le> k" "others j" by (auto simp: cancellation_seen_def)
    have "j = k"
    proof (rule ccontr)
      assume "j \<noteq> k"
      with j have "j < k" by simp
      with a have "\<not> cancellation_seen (stop_flag t) others j" by blast
      with j show False by (auto simp: cancellation_seen_def)
    qed
    with j show ?thesis by simp
  qed
  have 2: "\<forall>j<k. \<not> others (0 + j)"
    using a by (auto simp: cancellation_seen_def)
  have 3: "stop_flag ?t \<longrightarrow> k = 0"
  proof
    assume "stop_flag ?t"
    then have "cancellation_seen (stop_flag t) others 0" by (simp add: flag cancellation_seen_def)
    with a show "k = 0" by (cases k) auto
  qed
  from a have 4: "k < fuel" by simp
  show "map_option (\<lambda>(s, t'). (s, served t', trace t'))
          (runTask fuel initialDuration minDuration stepFn others t)
        = Some (spec_rounds (Suc k) initialDuration minDuration stepFn (served t) (trace t))"
    using runTask_loop_breaks [OF 1 2 3 4, of minDuration stepFn initialDuration]
    by (simp only: runTask_def spec_rounds_def registerStopCallback_frame)
next
  assume a: "\<forall>j<fuel. \<not> cancellation_seen (stop_flag t) others j"
  show "runTask fuel initialDuration minDuration stepFn others t = None"
  proof (cases fuel)
    case 0
    then show ?thesis by (simp add: runTask_def)
  next
    case (Suc f)
    with a have "\<not> cancellation_seen (stop_flag t) others 0" by simp
    then have n: "\<not> stop_flag (registerStopCallback t)"
      by (simp add: cancellation_seen_def registerStopCallback_frame)
    have b: "\<forall>j<fuel. \<not> others (0 + j)"
      using a by (auto simp: cancellation_seen_def)
    show ?thesis
      using runTask_loop_goes_on [OF n b, of minDuration stepFn initialDuration]
      by (simp only: runTask_def)
  qed
qed

text \<open>
  The theorem at a concrete input: the serve function of the example, started with 1000 ms
  and a minimum of 1 ms; stop is requested in the fifth round. And the same worker
  without any stop request, which is still in the loop after three rounds.
\<close>

theorem runTask_is_specified_loop_witness:
  "cancellation_seen (stop_flag task_world0) (\<lambda>k. k = 4) 4
   \<and> map_option (\<lambda>(s, t'). (s, served t', trace t'))
        (runTask 6 1000 1 serveFunction_main (\<lambda>k. k = 4) task_world0)
      = Some (1001, 5, [Serve 1000, WaitFor 2000, Serve 2000, WaitFor 3000, Serve 3000, WaitFor 4000,
                        Serve 4000, Serve 1, WaitFor 1001])
   \<and> runTask 3 1000 1 serveFunction_main (\<lambda>k. False) task_world0 = None"
proof -
  have a: "cancellation_seen (stop_flag task_world0) (\<lambda>k. k = 4) 4
   \<and> (\<forall>j<4. \<not> cancellation_seen (stop_flag task_world0) (\<lambda>k. k = 4) j) \<and> (4::nat) < 6"
    by (simp add: cancellation_seen_def task_world0_def)
  have b: "\<forall>j<3. \<not> cancellation_seen (stop_flag task_world0) (\<lambda>k. False) j"
    by (simp add: cancellation_seen_def task_world0_def)
  have c: "spec_rounds (Suc 4) 1000 1 serveFunction_main (served task_world0) (trace task_world0)
      = (1001, 5, [Serve 1000, WaitFor 2000, Serve 2000, WaitFor 3000, Serve 3000, WaitFor 4000,
                        Serve 4000, Serve 1, WaitFor 1001])"
    by (simp add: spec_rounds_def spec_round_def serveFunction_main_def task_world0_def
        eval_nat_numeral)
  note t1 = runTask_is_specified_loop [of task_world0 "\<lambda>k. k = 4" 4 6 1000 1 serveFunction_main,
      THEN conjunct1, THEN mp, OF a]
  note t2 = runTask_is_specified_loop [of task_world0 "\<lambda>k. False" 0 3 1000 1 serveFunction_main,
      THEN conjunct2, THEN mp, OF b]
  from a [THEN conjunct1] t1 [unfolded c] t2 show ?thesis by (intro conjI)
qed

end
